theory Spec2Isabelle
  imports Complex_Main "HOL-Library.Sublist"
begin

section \<open>Text\<close>

text \<open>
  A Python \<^verbatim>\<open>str\<close> is a sequence of Unicode code points, and several notes of the
  program are Chinese text that the program later searches for. A string is therefore a
  list of code points; \<open>lit\<close> embeds an ASCII literal. \<^verbatim>\<open>a in b\<close> on two strings is
  the contiguous-sublist test \<^const>\<open>sublist\<close>, \<^verbatim>\<open>a + b\<close> is \<open>@\<close>.
\<close>

type_synonym ustr = "nat list"

definition lit :: "string \<Rightarrow> ustr" where
  "lit s = map of_char s"

text \<open>
  \<^verbatim>\<open>str.lower()\<close>. The program lowers a string only to look for the ASCII letters
  \<^verbatim>\<open>l\<close> and \<^verbatim>\<open>d\<close> in it or to compare it with \<^verbatim>\<open>"yes"\<close>; the letters A to Z
  are mapped to a to z, every other code point is left as it is.
\<close>

definition lower_cp :: "nat \<Rightarrow> nat" where
  "lower_cp c = (if 65 \<le> c \<and> c \<le> 90 then c + 32 else c)"

definition lower :: "ustr \<Rightarrow> ustr" where
  "lower s = map lower_cp s"

definition ascii_lowercase :: ustr where
  "ascii_lowercase = lit ''abcdefghijklmnopqrstuvwxyz''"

definition digits :: ustr where
  "digits = lit ''0123456789''"

section \<open>Candidate generator\<close>

text \<open>
  \<^verbatim>\<open>itertools.product(characters, repeat=n)\<close>, as the Python documentation defines it:
  \<^verbatim>\<open>result = [[]]; for pool in pools: result = [x+[y] for x in result for y in pool]\<close>.
\<close>

fun product_repeat :: "'a list \<Rightarrow> nat \<Rightarrow> 'a list list" where
  "product_repeat cs 0 = [[]]"
| "product_repeat cs (Suc n) =
     concat (map (\<lambda>x. map (\<lambda>y. x @ [y]) cs) (product_repeat cs n))"

text \<open>What \<^verbatim>\<open>generate_domains\<close> writes to the log.\<close>

datatype log_line =
    ErrorLengthNotPositive
  | WarningVeryManyCombinations int
  | InfoWillGenerate int
  | InfoGenerated nat

text \<open>
  The loop over the combinations: \<open>generated\<close> and \<open>count\<close> are the loop's two
  variables, \<^verbatim>\<open>continue\<close> and \<^verbatim>\<open>break\<close> are the two ways out of an iteration.
\<close>

fun generate_loop ::
  "int \<Rightarrow> ustr \<Rightarrow> ustr \<Rightarrow> ustr \<Rightarrow> ustr set \<Rightarrow> ustr list \<Rightarrow> ustr list \<Rightarrow> int \<Rightarrow> ustr list"
where
  "generate_loop limit pfx sfx tld exclude_set [] generated count = generated"
| "generate_loop limit pfx sfx tld exclude_set (combo # rest) generated count =
     (let full_domain = pfx @ combo @ sfx @ tld in
      if full_domain \<in> exclude_set
      then generate_loop limit pfx sfx tld exclude_set rest generated count
      else if limit > 0 \<and> count + 1 \<ge> limit
      then generated @ [full_domain]
      else generate_loop limit pfx sfx tld exclude_set rest
             (generated @ [full_domain]) (count + 1))"

text \<open>The character set after the \<^verbatim>\<open>pattern\<close> adjustment.\<close>

definition effective_characters :: "ustr \<Rightarrow> ustr option \<Rightarrow> ustr" where
  "effective_characters characters pattern =
     (case pattern of
        None \<Rightarrow> characters
      | Some p \<Rightarrow>
          if p = [] then characters
          else
            (let char_set = (if of_char CHR ''l'' \<in> set (lower p) then ascii_lowercase else [])
                          @ (if of_char CHR ''d'' \<in> set (lower p) then digits else [])
             in if char_set \<noteq> [] then char_set else characters))"

definition generate_domains ::
  "ustr \<Rightarrow> int \<Rightarrow> int \<Rightarrow> ustr \<Rightarrow> ustr \<Rightarrow> ustr \<Rightarrow> ustr set \<Rightarrow> ustr option
     \<Rightarrow> log_line list \<times> ustr list"
where
  "generate_domains characters len limit pfx sfx tld exclude_set pattern =
     (let chars = effective_characters characters pattern;
          effective_length = len
      in
      if effective_length \<le> 0 then ([ErrorLengthNotPositive], [])
      else
        (let total_combinations = int (length chars) ^ nat effective_length;
             actual_limit = (if limit > 0 then limit else total_combinations);
             planned = (if actual_limit > 10000 \<and> limit > 0
                        then WarningVeryManyCombinations actual_limit
                        else InfoWillGenerate (min total_combinations actual_limit));
             generated = generate_loop limit pfx sfx tld exclude_set
                           (product_repeat chars (nat effective_length)) [] 0
         in ([planned, InfoGenerated (length generated)], generated)))"

section \<open>Decoded JSON and Python's operations on it\<close>

text \<open>
  What \<^verbatim>\<open>response.json()\<close> and \<^verbatim>\<open>json.load\<close> return. No operation of the program
  looks into a number, so one constructor stands for integers and floats. An object is
  the list of its items; the first item with a key is the one \<^verbatim>\<open>get\<close> finds.
\<close>

datatype json =
    JNull
  | JBool bool
  | JNum int
  | JStr ustr
  | JArr "json list"
  | JObj "(ustr \<times> json) list"

text \<open>An exception is its class and its text \<^verbatim>\<open>str(e)\<close>.\<close>

datatype exn_class =
    AttributeError | TypeError | KeyError | ValueError
  | JSONDecodeError | Timeout | RequestException | OtherError

datatype exn = Exn exn_class ustr

text \<open>
  Two renderings belong to the interpreter and differ between Python versions; they only
  ever end up inside a note. \<open>str_of\<close> is \<^verbatim>\<open>str(v)\<close> of a value that is not a string
  (a price that the provider sent as a number, say); \<open>message\<close> is the text of the
  error that the interpreter raises when an operation does not apply to a value.
\<close>

record python =
  str_of :: "json \<Rightarrow> ustr"
  message :: "exn_class \<Rightarrow> json \<Rightarrow> ustr"

definition raise :: "python \<Rightarrow> exn_class \<Rightarrow> json \<Rightarrow> exn + 'a" where
  "raise py c v = Inl (Exn c (message py c v))"

definition and_then :: "exn + 'a \<Rightarrow> ('a \<Rightarrow> exn + 'b) \<Rightarrow> exn + 'b" where
  "and_then m f = (case m of Inl e \<Rightarrow> Inl e | Inr x \<Rightarrow> f x)"

text \<open>\<^verbatim>\<open>f"{v}"\<close>\<close>

definition fmt :: "python \<Rightarrow> json \<Rightarrow> ustr" where
  "fmt py v = (case v of JStr s \<Rightarrow> s | _ \<Rightarrow> str_of py v)"

text \<open>\<^verbatim>\<open>bool(v)\<close>\<close>

definition truthy :: "json \<Rightarrow> bool" where
  "truthy v =
     (case v of
        JNull \<Rightarrow> False
      | JBool b \<Rightarrow> b
      | JNum n \<Rightarrow> n \<noteq> 0
      | JStr s \<Rightarrow> s \<noteq> []
      | JArr xs \<Rightarrow> xs \<noteq> []
      | JObj kvs \<Rightarrow> kvs \<noteq> [])"

text \<open>\<^verbatim>\<open>v.get(key, default)\<close>: only a dict has the method.\<close>

definition dict_get :: "python \<Rightarrow> json \<Rightarrow> ustr \<Rightarrow> json \<Rightarrow> exn + json" where
  "dict_get py v key dflt =
     (case v of
        JObj kvs \<Rightarrow> Inr (case map_of kvs key of Some x \<Rightarrow> x | None \<Rightarrow> dflt)
      | _ \<Rightarrow> raise py AttributeError v)"

text \<open>
  \<^verbatim>\<open>key in v\<close> for a string \<open>key\<close>: a key of a dict, an element of a list, a
  substring of a string; the other values are not iterable.
\<close>

definition py_in :: "python \<Rightarrow> ustr \<Rightarrow> json \<Rightarrow> exn + bool" where
  "py_in py key v =
     (case v of
        JObj kvs \<Rightarrow> Inr (key \<in> fst ` set kvs)
      | JArr xs \<Rightarrow> Inr (JStr key \<in> set xs)
      | JStr s \<Rightarrow> Inr (sublist key s)
      | _ \<Rightarrow> raise py TypeError v)"

text \<open>\<^verbatim>\<open>v[key]\<close> for a string \<open>key\<close>: lists and strings want an integer.\<close>

definition subscript :: "python \<Rightarrow> json \<Rightarrow> ustr \<Rightarrow> exn + json" where
  "subscript py v key =
     (case v of
        JObj kvs \<Rightarrow> (case map_of kvs key of Some x \<Rightarrow> Inr x | None \<Rightarrow> raise py KeyError (JStr key))
      | _ \<Rightarrow> raise py TypeError v)"

text \<open>\<^verbatim>\<open>v.lower()\<close>\<close>

definition py_lower :: "python \<Rightarrow> json \<Rightarrow> exn + ustr" where
  "py_lower py v = (case v of JStr s \<Rightarrow> Inr (lower s) | _ \<Rightarrow> raise py AttributeError v)"

text \<open>\<^verbatim>\<open>k1 in v and k2 in v[k1]\<close>\<close>

definition in_and_in :: "python \<Rightarrow> ustr \<Rightarrow> ustr \<Rightarrow> json \<Rightarrow> exn + bool" where
  "in_and_in py k1 k2 v =
     and_then (py_in py k1 v) (\<lambda>b.
       if b then and_then (subscript py v k1) (\<lambda>sub. py_in py k2 sub) else Inr False)"

text \<open>\<^verbatim>\<open>str(n)\<close> of an integer.\<close>

fun str_nat :: "nat \<Rightarrow> ustr" where
  "str_nat n = (if n < 10 then [48 + n] else str_nat (n div 10) @ [48 + n mod 10])"

declare str_nat.simps [simp del]

definition str_int :: "int \<Rightarrow> ustr" where
  "str_int i = (if i < 0 then 45 # str_nat (nat (- i)) else str_nat (nat i))"

section \<open>The world outside the program\<close>

text \<open>
  An HTTP exchange ends with a response or with an exception of the \<^verbatim>\<open>requests\<close>
  library. \<open>body_json\<close> is what \<^verbatim>\<open>response.json()\<close> does: the decoded value, or the
  text of the decoding error.
\<close>

record response =
  status_code :: int
  body_text :: ustr
  body_json :: "ustr + json"

datatype http = Response response | Raises exn

text \<open>
  The environment decides what the program cannot: the answer to the \<open>k\<close>-th request,
  how long that request takes, by how much the \<open>k\<close>-th \<^verbatim>\<open>time.sleep\<close> oversleeps, and
  the \<open>k\<close>-th draw of \<^verbatim>\<open>random.choice\<close>.
\<close>

record env =
  net :: "nat \<Rightarrow> http"
  took :: "nat \<Rightarrow> real"
  overslept :: "nat \<Rightarrow> real"
  draw :: "nat \<Rightarrow> nat"

text \<open>
  The state the program acts on: the clock (seconds), the requests issued so far (provider,
  domain, time of issue; oldest first), the number of sleeps and draws so far, and the two
  files it appends to (the clock stands for the formatted timestamp). Time passes while a
  request is under way and during a sleep.
\<close>

record world =
  clock :: real
  requests :: "(ustr \<times> ustr \<times> real) list"
  sleeps :: nat
  draws :: nat
  available_file :: "(ustr \<times> real \<times> ustr) list"
  error_file :: "(real \<times> ustr \<times> ustr) list"

definition http_request :: "env \<Rightarrow> world \<Rightarrow> ustr \<Rightarrow> ustr \<Rightarrow> http \<times> world" where
  "http_request e w provider domain =
     (let k = length (requests w)
      in (net e k,
          w\<lparr>requests := requests w @ [(provider, domain, clock w)],
            clock := clock w + took e k\<rparr>))"

definition sleep :: "env \<Rightarrow> world \<Rightarrow> real \<Rightarrow> world" where
  "sleep e w seconds =
     w\<lparr>clock := clock w + seconds + overslept e (sleeps w), sleeps := Suc (sleeps w)\<rparr>"

definition save_available_domain :: "world \<Rightarrow> ustr \<Rightarrow> ustr \<Rightarrow> world" where
  "save_available_domain w domain note =
     w\<lparr>available_file := available_file w @ [(domain, clock w, note)]\<rparr>"

definition log_error :: "world \<Rightarrow> ustr \<Rightarrow> ustr \<Rightarrow> world" where
  "log_error w domain error = w\<lparr>error_file := error_file w @ [(clock w, domain, error)]\<rparr>"

section \<open>Notes\<close>

text \<open>
  The Chinese words of the program's notes, by code point. Three of them are searched for
  later: \<open>zh_rate_limit\<close> by the retry after a rate-limit rejection, \<open>zh_error\<close> and
  \<open>zh_exception\<close> by the count of consecutive errors.
\<close>

definition zh_rate_limit :: ustr where
  \<comment> \<open>rate limit; U+901F U+7387 U+9650 U+5236\<close>
  "zh_rate_limit = [36895, 29575, 38480, 21046]"

definition zh_error :: ustr where
  \<comment> \<open>error; U+9519 U+8BEF\<close>
  "zh_error = [38169, 35823]"

definition zh_exception :: ustr where
  \<comment> \<open>exception; U+5F02 U+5E38\<close>
  "zh_exception = [24322, 24120]"

definition zh_price :: ustr where
  \<comment> \<open>price; U+4EF7 U+683C\<close>
  "zh_price = [20215, 26684]"

definition zh_unknown :: ustr where
  \<comment> \<open>unknown; U+672A U+77E5\<close>
  "zh_unknown = [26410, 30693]"

definition zh_request :: ustr where
  \<comment> \<open>request; U+8BF7 U+6C42\<close>
  "zh_request = [35831, 27714]"

definition zh_timed_out :: ustr where
  \<comment> \<open>timed out; U+8D85 U+65F6\<close>
  "zh_timed_out = [36229, 26102]"

definition zh_domain_registered :: ustr where
  \<comment> \<open>domain name is registered; U+57DF U+540D U+5DF2 U+6CE8 U+518C\<close>
  "zh_domain_registered = [22495, 21517, 24050, 27880, 20876]"

definition zh_registered :: ustr where
  \<comment> \<open>registered; U+5DF2 U+6CE8 U+518C\<close>
  "zh_registered = [24050, 27880, 20876]"

definition zh_parsing :: ustr where
  \<comment> \<open>parsing; U+89E3 U+6790\<close>
  "zh_parsing = [35299, 26512]"

definition zh_returned_format :: ustr where
  \<comment> \<open>returned format; U+8FD4 U+56DE U+683C U+5F0F\<close>
  "zh_returned_format = [36820, 22238, 26684, 24335]"

definition zh_not_configured :: ustr where
  \<comment> \<open>not configured; U+672A U+914D U+7F6E\<close>
  "zh_not_configured = [26410, 37197, 32622]"

definition zh_config_not_found :: ustr where
  \<comment> \<open>provider configuration not found; U+672A U+627E U+5230 U+63D0 U+4F9B U+5546 U+914D U+7F6E\<close>
  "zh_config_not_found = [26410, 25214, 21040, 25552, 20379, 21830, 37197, 32622]"

definition zh_unsupported :: ustr where
  \<comment> \<open>unsupported; U+4E0D U+652F U+6301 U+7684\<close>
  "zh_unsupported = [19981, 25903, 25345, 30340]"

definition zh_provider :: ustr where
  \<comment> \<open>provider; U+63D0 U+4F9B U+5546\<close>
  "zh_provider = [25552, 20379, 21830]"

definition zh_not_given :: ustr where
  \<comment> \<open>not given; U+672A U+63D0 U+4F9B\<close>
  "zh_not_given = [26410, 25552, 20379]"

definition zh_key :: ustr where
  \<comment> \<open>key; U+5BC6 U+94A5\<close>
  "zh_key = [23494, 38053]"

definition zh_query :: ustr where
  \<comment> \<open>query; U+67E5 U+8BE2\<close>
  "zh_query = [26597, 35810]"

definition zh_no_record_maybe_free :: ustr where
  \<comment> \<open>no record, may be available; U+65E0 U+8BB0 U+5F55 U+FF0C U+53EF U+80FD U+53EF U+7528\<close>
  "zh_no_record_maybe_free = [26080, 35760, 24405, 65292, 21487, 33021, 21487, 29992]"

definition zh_awaiting :: ustr where
  \<comment> \<open>awaiting; U+5F85\<close>
  "zh_awaiting = [24453]"

definition zh_verification :: ustr where
  \<comment> \<open>verification; U+9A8C U+8BC1\<close>
  "zh_verification = [39564, 35777]"

definition zh_confirmed :: ustr where
  \<comment> \<open>confirmed; U+5DF2 U+786E U+8BA4\<close>
  "zh_confirmed = [24050, 30830, 35748]"

definition zh_failed :: ustr where
  \<comment> \<open>failed; U+51FA U+9519\<close>
  "zh_failed = [20986, 38169]"


definition rate_limit_marker :: ustr where
  "rate_limit_marker = lit ''within 10 seconds used''"

section \<open>Provider configuration\<close>

text \<open>
  \<^verbatim>\<open>APIConfig\<close>: a provider's configuration is a decoded JSON object, \<open>providers\<close> is
  the dict from the lower-cased provider name to it, \<open>active_providers\<close> the list of
  the active names.
\<close>

type_synonym config = "(ustr \<times> json) list"

record api_config =
  providers :: "(ustr \<times> config) list"
  active_providers :: "ustr list"

definition config_get :: "config \<Rightarrow> ustr \<Rightarrow> json" where
  "config_get c key = (case map_of c key of Some v \<Rightarrow> v | None \<Rightarrow> JNull)"

definition get_provider_config :: "api_config \<Rightarrow> ustr \<Rightarrow> config" where
  "get_provider_config ac provider =
     (case map_of (providers ac) (lower provider) of Some c \<Rightarrow> c | None \<Rightarrow> [])"

text \<open>\<^verbatim>\<open>random.choice\<close> of the active providers; \<^verbatim>\<open>None\<close> when there is none.\<close>

definition get_random_active_provider :: "env \<Rightarrow> world \<Rightarrow> api_config \<Rightarrow> ustr option \<times> world" where
  "get_random_active_provider e w ac =
     (if active_providers ac = [] then (None, w)
      else (Some (active_providers ac ! (draw e (draws w) mod length (active_providers ac))),
            w\<lparr>draws := Suc (draws w)\<rparr>))"

section \<open>Registrar checks of \<^verbatim>\<open>domain_finder.py\<close>\<close>

text \<open>
  A check returns the domain, the availability (\<^verbatim>\<open>True\<close>, \<^verbatim>\<open>False\<close> or \<^verbatim>\<open>None\<close>)
  and a note. The part of \<^verbatim>\<open>porkbun_check\<close> that handles a response with status 200;
  an exception in it reaches the \<^verbatim>\<open>except Exception\<close> of the function.
\<close>

type_synonym verdict = "ustr \<times> bool option \<times> ustr"

definition porkbun_ok :: "python \<Rightarrow> response \<Rightarrow> exn + bool option \<times> ustr" where
  "porkbun_ok py r =
     and_then (case body_json r of Inl msg \<Rightarrow> Inl (Exn JSONDecodeError msg) | Inr d \<Rightarrow> Inr d)
       (\<lambda>data.
     and_then (dict_get py data (lit ''status'') JNull) (\<lambda>status.
       if status = JStr (lit ''SUCCESS'')
       then
         and_then (dict_get py data (lit ''response'') (JObj [])) (\<lambda>response_data.
         and_then (dict_get py response_data (lit ''avail'') JNull) (\<lambda>avail.
         and_then (dict_get py response_data (lit ''price'') (JStr zh_unknown)) (\<lambda>price.
           Inr (Some (avail = JStr (lit ''yes'')), (lit ''Porkbun'' @ zh_price @ lit '': '') @ fmt py price))))
       else
         and_then (dict_get py data (lit ''message'') (JStr (zh_unknown @ zh_error))) (\<lambda>error_msg.
           Inr (Some False, (lit ''Porkbun API'' @ zh_error @ lit '': '') @ fmt py error_msg))))"

definition porkbun_check :: "python \<Rightarrow> env \<Rightarrow> world \<Rightarrow> ustr \<Rightarrow> config \<Rightarrow> verdict \<times> world" where
  "porkbun_check py e w domain config =
     (let (h, w') = http_request e w (lit ''porkbun'') domain
      in (case h of
            Raises (Exn c msg) \<Rightarrow> (domain, Some False, (lit ''Porkbun'' @ zh_request @ zh_exception @ lit '': '') @ msg)
          | Response r \<Rightarrow>
              if status_code r = 200
              then (case porkbun_ok py r of
                      Inl (Exn c msg) \<Rightarrow> (domain, Some False, (lit ''Porkbun'' @ zh_request @ zh_exception @ lit '': '') @ msg)
                    | Inr (available, note) \<Rightarrow> (domain, available, note))
              else if status_code r = 400 \<and> sublist rate_limit_marker (body_text r)
              then (domain, None, (lit ''Porkbun'' @ zh_rate_limit))
              else (domain, Some False, (lit ''Porkbun HTTP'' @ zh_error @ lit '': '') @ str_int (status_code r)),
          w'))"

text \<open>
  The part of \<^verbatim>\<open>dynadot_check\<close> inside the inner \<^verbatim>\<open>try\<close>, after the body has been
  decoded.
\<close>

definition dynadot_first_result :: "python \<Rightarrow> json \<Rightarrow> exn + bool option \<times> ustr" where
  "dynadot_first_result py result =
     and_then (dict_get py result (lit ''Available'') (JStr (lit ''no''))) (\<lambda>available_str.
     and_then (py_lower py available_str) (\<lambda>lowered.
     and_then (dict_get py result (lit ''Price'') (JStr zh_unknown)) (\<lambda>price.
     and_then (dict_get py result (lit ''Currency'') (JStr (lit ''USD''))) (\<lambda>currency.
       if lowered = lit ''yes''
       then Inr (Some True, (lit ''Dynadot'' @ zh_price @ lit '': '') @ fmt py price @ lit '' '' @ fmt py currency)
       else Inr (Some False, (lit ''Dynadot: '' @ zh_domain_registered))))))"

definition dynadot_ok :: "python \<Rightarrow> json \<Rightarrow> exn + bool option \<times> ustr" where
  "dynadot_ok py data =
     and_then (py_in py (lit ''error'') data) (\<lambda>has_error.
       if has_error
       then and_then (dict_get py data (lit ''error'') (JStr (zh_unknown @ zh_error))) (\<lambda>error_msg.
              Inr (Some False, (lit ''Dynadot API'' @ zh_error @ lit '': '') @ fmt py error_msg))
       else
     and_then (in_and_in py (lit ''SearchResponse'') (lit ''Error'') data) (\<lambda>has_search_error.
       if has_search_error
       then and_then (subscript py data (lit ''SearchResponse'')) (\<lambda>sr.
            and_then (dict_get py sr (lit ''Error'') (JStr (zh_unknown @ zh_error))) (\<lambda>error_msg.
              Inr (Some False, (lit ''Dynadot API'' @ zh_error @ lit '': '') @ fmt py error_msg)))
       else
     and_then (in_and_in py (lit ''SearchResponse'') (lit ''SearchResults'') data) (\<lambda>has_results.
       if has_results
       then and_then (subscript py data (lit ''SearchResponse'')) (\<lambda>sr.
            and_then (subscript py sr (lit ''SearchResults'')) (\<lambda>results.
              case results of
                JArr (result # rest) \<Rightarrow> dynadot_first_result py result
              | _ \<Rightarrow> Inr (Some False, (lit ''Dynadot API'' @ zh_returned_format @ zh_exception))))
       else Inr (Some False, (lit ''Dynadot API'' @ zh_returned_format @ zh_exception)))))"

definition dynadot_check :: "python \<Rightarrow> env \<Rightarrow> world \<Rightarrow> ustr \<Rightarrow> config \<Rightarrow> verdict \<times> world" where
  "dynadot_check py e w domain config =
     (if \<not> truthy (config_get config (lit ''api_key''))
      then ((domain, Some False, (zh_not_given @ lit ''Dynadot API'' @ zh_key)), w)
      else
        (let (h, w') = http_request e w (lit ''dynadot'') domain
         in (case h of
               Raises (Exn c msg) \<Rightarrow> (domain, Some False, (lit ''Dynadot'' @ zh_request @ zh_exception @ lit '': '') @ msg)
             | Response r \<Rightarrow>
                 if status_code r = 200
                 then (case body_json r of
                         Inl msg \<Rightarrow>
                           (domain, Some False,
                            (lit ''Dynadot JSON'' @ zh_parsing @ zh_error @ lit '': '') @ take 100 (body_text r) @ lit ''...'')
                       | Inr data \<Rightarrow>
                           (case dynadot_ok py data of
                              Inl (Exn c msg) \<Rightarrow> (domain, Some False, (lit ''Dynadot'' @ zh_request @ zh_exception @ lit '': '') @ msg)
                            | Inr (available, note) \<Rightarrow> (domain, available, note)))
                 else (domain, Some False, (lit ''Dynadot HTTP'' @ zh_error @ lit '': '') @ str_int (status_code r)),
             w')))"

text \<open>
  \<^verbatim>\<open>api_check\<close>. \<open>provider\<close> is \<^verbatim>\<open>None\<close> when the caller leaves the choice to
  \<^verbatim>\<open>random.choice\<close>.
\<close>

definition api_check ::
  "python \<Rightarrow> env \<Rightarrow> world \<Rightarrow> ustr \<Rightarrow> api_config \<Rightarrow> ustr option \<Rightarrow> verdict \<times> world"
where
  "api_check py e w domain ac provider =
     (let (provider, w1) =
            (if provider = None \<or> provider = Some [] then get_random_active_provider e w ac
             else (provider, w))
      in case provider of
           None \<Rightarrow> ((domain, Some False, (zh_not_configured @ lit ''API'')), w1)
         | Some p \<Rightarrow>
             if p = [] then ((domain, Some False, (zh_not_configured @ lit ''API'')), w1)
             else
               (let provider_config = get_provider_config ac p
                in if provider_config = []
                   then ((domain, Some False, (zh_config_not_found @ lit '': '') @ p), w1)
                   else if lower p = lit ''porkbun''
                   then porkbun_check py e w1 domain provider_config
                   else if lower p = lit ''dynadot''
                   then dynadot_check py e w1 domain provider_config
                   else ((domain, Some False, (zh_unsupported @ lit ''API'' @ zh_provider @ lit '': '') @ p), w1)))"

section \<open>DNS probe\<close>

text \<open>
  The three ways \<^verbatim>\<open>socket.gethostbyname\<close> can end: an address, a \<^verbatim>\<open>socket.gaierror\<close>
  with its error number and text, or another exception with its text.
\<close>

datatype resolution = Address ustr | Gaierror int ustr | OtherException ustr

text \<open>
  Two of the error numbers of \<^verbatim>\<open>socket.gaierror\<close> (on Linux): the name does not
  exist, and the resolver could not be reached or timed out.
\<close>

definition EAI_NONAME :: int where
  "EAI_NONAME = - 2"

definition EAI_AGAIN :: int where
  "EAI_AGAIN = - 3"

definition dns_check :: "resolution \<Rightarrow> ustr \<Rightarrow> ustr \<times> bool \<times> ustr option" where
  "dns_check gethostbyname domain =
     (case gethostbyname of
        Address a \<Rightarrow> (domain, True, None)
      | Gaierror errno strerror \<Rightarrow> (domain, False, None)
      | OtherException msg \<Rightarrow> (domain, True, Some ((lit ''DNS'' @ zh_query @ zh_error @ lit '': '') @ msg)))"

section \<open>The provider clients of \<^verbatim>\<open>porkbun_api.py\<close> and \<^verbatim>\<open>dynadot_api.py\<close>\<close>

text \<open>
  \<^verbatim>\<open>RATE_LIMIT\<close> of the two modules, in seconds. The same two numbers are
  \<^verbatim>\<open>RATE_LIMIT_PORKBUN\<close> and \<^verbatim>\<open>RATE_LIMIT_DYNADOT\<close> of \<^verbatim>\<open>domain_finder.py\<close>.
\<close>

definition RATE_LIMIT_PORKBUN :: real where
  "RATE_LIMIT_PORKBUN = 11"

definition RATE_LIMIT_DYNADOT :: real where
  "RATE_LIMIT_DYNADOT = 2"

text \<open>
  A client object; \<open>last_request_time\<close> is the only field a method writes. Both classes
  have the same \<^verbatim>\<open>_respect_rate_limit\<close>, each with the \<^verbatim>\<open>RATE_LIMIT\<close> of its module.
\<close>

record client =
  api_key :: ustr
  api_secret :: "ustr option"
  timeout :: int
  last_request_time :: real

definition respect_rate_limit :: "real \<Rightarrow> env \<Rightarrow> world \<Rightarrow> client \<Rightarrow> client \<times> world" where
  "respect_rate_limit RATE_LIMIT e w self =
     (let current_time = clock w;
          elapsed = current_time - last_request_time self;
          w' = (if elapsed < RATE_LIMIT then sleep e w (RATE_LIMIT - elapsed) else w)
      in (self\<lparr>last_request_time := clock w'\<rparr>, w'))"

text \<open>\<^verbatim>\<open>if "." not in domain: domain += ".com"\<close>\<close>

definition complete_domain :: "ustr \<Rightarrow> ustr" where
  "complete_domain domain = (if of_char CHR ''.'' \<in> set domain then domain else domain @ lit ''.com'')"

text \<open>
  The three \<^verbatim>\<open>except\<close> clauses that end \<^verbatim>\<open>check_domain\<close> in both classes:
  \<^verbatim>\<open>requests.Timeout\<close>, then \<^verbatim>\<open>requests.RequestException\<close>, then \<^verbatim>\<open>Exception\<close>.
\<close>

definition client_except :: "exn \<Rightarrow> bool option \<times> ustr" where
  "client_except x =
     (case x of Exn c msg \<Rightarrow>
        if c = Timeout then (Some False, (zh_request @ zh_timed_out))
        else if c = RequestException then (Some False, (zh_request @ zh_exception @ lit '': '') @ msg)
        else (Some False, (zh_unknown @ zh_error @ lit '': '') @ msg))"

definition PorkbunAPI_ok :: "python \<Rightarrow> json \<Rightarrow> exn + bool option \<times> ustr" where
  "PorkbunAPI_ok py data =
     and_then (dict_get py data (lit ''status'') JNull) (\<lambda>status.
       if status = JStr (lit ''SUCCESS'')
       then
         and_then (dict_get py data (lit ''response'') (JObj [])) (\<lambda>response_data.
         and_then (dict_get py response_data (lit ''avail'') JNull) (\<lambda>avail.
         and_then (dict_get py response_data (lit ''price'') (JStr zh_unknown)) (\<lambda>price.
           if avail = JStr (lit ''yes'')
           then Inr (Some True, (zh_price @ lit '': '') @ fmt py price)
           else Inr (Some False, (zh_domain_registered)))))
       else
         and_then (dict_get py data (lit ''message'') (JStr (zh_unknown @ zh_error))) (\<lambda>error_msg.
           Inr (Some False, (lit ''API'' @ zh_error @ lit '': '') @ fmt py error_msg)))"

definition PorkbunAPI_check_domain ::
  "python \<Rightarrow> env \<Rightarrow> world \<Rightarrow> client \<Rightarrow> ustr \<Rightarrow> (bool option \<times> ustr) \<times> client \<times> world"
where
  "PorkbunAPI_check_domain py e w self domain =
     (let domain = complete_domain domain;
          (self', w1) = respect_rate_limit RATE_LIMIT_PORKBUN e w self;
          (h, w2) = http_request e w1 (lit ''porkbun'') domain
      in (case h of
            Raises x \<Rightarrow> client_except x
          | Response r \<Rightarrow>
              if status_code r = 200
              then (case body_json r of
                      Inl msg \<Rightarrow> (Some False, (lit ''JSON'' @ zh_parsing @ zh_error @ lit '': '') @ take 100 (body_text r) @ lit ''...'')
                    | Inr data \<Rightarrow>
                        (case PorkbunAPI_ok py data of
                           Inl x \<Rightarrow> client_except x
                         | Inr res \<Rightarrow> res))
              else if status_code r = 400 \<and> sublist rate_limit_marker (body_text r)
              then (None, (lit ''Porkbun'' @ zh_rate_limit))
              else (Some False,
                    (lit ''HTTP'' @ zh_error @ lit '' '') @ str_int (status_code r) @ lit '': '' @ take 100 (body_text r)
                      @ lit ''...''),
          self', w2))"

definition DynadotAPI_first_result :: "python \<Rightarrow> json \<Rightarrow> exn + bool option \<times> ustr" where
  "DynadotAPI_first_result py result =
     and_then (dict_get py result (lit ''Available'') (JStr (lit ''no''))) (\<lambda>available_str.
     and_then (py_lower py available_str) (\<lambda>lowered.
     and_then (dict_get py result (lit ''Price'') (JStr zh_unknown)) (\<lambda>price.
     and_then (dict_get py result (lit ''Currency'') (JStr (lit ''USD''))) (\<lambda>currency.
       if lowered = lit ''yes''
       then Inr (Some True, (zh_price @ lit '': '') @ fmt py price @ lit '' '' @ fmt py currency)
       else Inr (Some False, (zh_domain_registered))))))"

definition DynadotAPI_ok :: "python \<Rightarrow> json \<Rightarrow> exn + bool option \<times> ustr" where
  "DynadotAPI_ok py data =
     and_then (py_in py (lit ''error'') data) (\<lambda>has_error.
       if has_error
       then and_then (dict_get py data (lit ''error'') (JStr (zh_unknown @ zh_error))) (\<lambda>error_msg.
              Inr (Some False, (lit ''API'' @ zh_error @ lit '': '') @ fmt py error_msg))
       else
     and_then (in_and_in py (lit ''SearchResponse'') (lit ''Error'') data) (\<lambda>has_search_error.
       if has_search_error
       then and_then (subscript py data (lit ''SearchResponse'')) (\<lambda>sr.
            and_then (dict_get py sr (lit ''Error'') (JStr (zh_unknown @ zh_error))) (\<lambda>error_msg.
              Inr (Some False, (lit ''API'' @ zh_error @ lit '': '') @ fmt py error_msg)))
       else
     and_then (in_and_in py (lit ''SearchResponse'') (lit ''SearchResults'') data) (\<lambda>has_results.
       if has_results
       then and_then (subscript py data (lit ''SearchResponse'')) (\<lambda>sr.
            and_then (subscript py sr (lit ''SearchResults'')) (\<lambda>results.
              case results of
                JArr (result # rest) \<Rightarrow> DynadotAPI_first_result py result
              | _ \<Rightarrow> Inr (Some False, (lit ''API'' @ zh_returned_format @ zh_exception))))
       else Inr (Some False, (lit ''API'' @ zh_returned_format @ zh_exception)))))"

definition DynadotAPI_check_domain ::
  "python \<Rightarrow> env \<Rightarrow> world \<Rightarrow> client \<Rightarrow> ustr \<Rightarrow> (bool option \<times> ustr) \<times> client \<times> world"
where
  "DynadotAPI_check_domain py e w self domain =
     (let domain = complete_domain domain;
          (self', w1) = respect_rate_limit RATE_LIMIT_DYNADOT e w self;
          (h, w2) = http_request e w1 (lit ''dynadot'') domain
      in (case h of
            Raises x \<Rightarrow> client_except x
          | Response r \<Rightarrow>
              if status_code r = 200
              then (case body_json r of
                      Inl msg \<Rightarrow> (Some False, (lit ''JSON'' @ zh_parsing @ zh_error @ lit '': '') @ take 100 (body_text r) @ lit ''...'')
                    | Inr data \<Rightarrow>
                        (case DynadotAPI_ok py data of
                           Inl x \<Rightarrow> client_except x
                         | Inr res \<Rightarrow> res))
              else (Some False,
                    (lit ''HTTP'' @ zh_error @ lit '' '') @ str_int (status_code r) @ lit '': '' @ take 100 (body_text r)
                      @ lit ''...''),
          self', w2))"

section \<open>The ledger table\<close>

text \<open>
  The ledger is a \<^verbatim>\<open>pandas.DataFrame\<close>: the column labels in order, and the rows, each
  a function from a label to the cell in that column. A cell holds a string, a boolean,
  a number, or nothing (\<^verbatim>\<open>NaN\<close> or \<^verbatim>\<open>None\<close>).
\<close>

datatype cell = CStr ustr | CBool bool | CNum int | CNaN

type_synonym row = "ustr \<Rightarrow> cell"

record dataframe =
  columns :: "ustr list"
  rows :: "row list"

definition col_domain :: ustr where
  "col_domain = lit ''domain''"

definition col_dns_checked :: ustr where
  "col_dns_checked = lit ''dns_checked''"

definition col_api_verified :: ustr where
  "col_api_verified = lit ''api_verified''"

definition col_available :: ustr where
  "col_available = lit ''available''"

definition col_note :: ustr where
  "col_note = lit ''note''"

text \<open>\<^verbatim>\<open>df[col] = value\<close> with a scalar: every row gets the value, a new label goes last.\<close>

definition set_column :: "dataframe \<Rightarrow> ustr \<Rightarrow> cell \<Rightarrow> dataframe" where
  "set_column df col v =
     \<lparr>columns = (if col \<in> set (columns df) then columns df else columns df @ [col]),
      rows = map (\<lambda>r. r(col := v)) (rows df)\<rparr>"

text \<open>\<^verbatim>\<open>df[col] == value\<close>: the boolean mask, or \<^verbatim>\<open>KeyError\<close> without such a column.\<close>

definition eq_mask :: "python \<Rightarrow> dataframe \<Rightarrow> ustr \<Rightarrow> cell \<Rightarrow> exn + bool list" where
  "eq_mask py df col v =
     (if col \<in> set (columns df) then Inr (map (\<lambda>r. r col = v) (rows df))
      else raise py KeyError (JStr col))"

text \<open>
  \<^verbatim>\<open>df.loc[mask, col] = value\<close>: the rows the mask selects get the value; a label
  that is not yet a column becomes one, empty in the other rows.
\<close>

definition loc_set :: "dataframe \<Rightarrow> bool list \<Rightarrow> ustr \<Rightarrow> cell \<Rightarrow> dataframe" where
  "loc_set df row_mask col v =
     \<lparr>columns = (if col \<in> set (columns df) then columns df else columns df @ [col]),
      rows = map (\<lambda>(m, r). if m then r(col := v)
                            else if col \<in> set (columns df) then r else r(col := CNaN))
                 (zip row_mask (rows df))\<rparr>"

text \<open>
  \<^verbatim>\<open>pd.concat([df, pd.DataFrame(new_rows)], ignore_index=True)\<close>, where every new row
  has the labels \<open>new_columns\<close>: the old rows stay in place, the new ones follow, and a
  label that one side lacks is empty there.
\<close>

definition concat_rows :: "dataframe \<Rightarrow> ustr list \<Rightarrow> row list \<Rightarrow> dataframe" where
  "concat_rows df new_columns new_rows =
     (if new_rows = [] then df
      else
        \<lparr>columns = columns df @ filter (\<lambda>c. c \<notin> set (columns df)) (remdups new_columns),
         rows = map (\<lambda>r c. if c \<in> set (columns df) then r c else CNaN) (rows df)
                @ map (\<lambda>r c. if c \<in> set new_columns then r c else CNaN) new_rows\<rparr>)"

definition ledger_columns :: "ustr list" where
  "ledger_columns = [col_domain, col_dns_checked, col_api_verified, col_available, col_note]"

definition empty_ledger :: dataframe where
  "empty_ledger = \<lparr>columns = ledger_columns, rows = []\<rparr>"

subsection \<open>\<^verbatim>\<open>load_checked_domains\<close>\<close>

definition required_columns :: "ustr list" where
  "required_columns = [col_domain, col_dns_checked, col_api_verified, col_available]"

text \<open>One round of the loop over \<^verbatim>\<open>required_columns\<close>.\<close>

definition ensure_column :: "ustr \<Rightarrow> dataframe \<Rightarrow> dataframe" where
  "ensure_column col df =
     (if col \<notin> set (columns df)
      then set_column df col (if col \<noteq> col_domain then CBool False else CStr [])
      else df)"

text \<open>
  The file is absent (\<open>None\<close>), or \<^verbatim>\<open>pd.read_csv\<close> raises on it, or it reads as a table.
  The second component is \<^verbatim>\<open>set(df['domain'].tolist())\<close>.
\<close>

definition load_checked_domains :: "(exn + dataframe) option \<Rightarrow> dataframe \<times> cell set" where
  "load_checked_domains file =
     (case file of
        None \<Rightarrow> (empty_ledger, {})
      | Some (Inl e) \<Rightarrow> (empty_ledger, {})
      | Some (Inr table) \<Rightarrow>
          (let df = fold ensure_column required_columns table
           in (df, set (map (\<lambda>r. r col_domain) (rows df)))))"

subsection \<open>\<^verbatim>\<open>run_dns_batch\<close>\<close>

text \<open>
  \<open>gethostbyname\<close> is how the lookup of each domain ends, \<open>dns_completed\<close> the
  order in which the pool's futures complete. One round of the loop over the completed
  futures adds a row and writes to the files. A pool of no workers cannot be made
  (\<^verbatim>\<open>ValueError\<close>).
\<close>

definition dns_row :: "ustr \<Rightarrow> bool \<Rightarrow> ustr option \<Rightarrow> row" where
  "dns_row domain is_registered error =
     (\<lambda>c. CNaN)
       (col_domain := CStr domain,
        col_dns_checked := CBool True,
        col_api_verified := CBool False,
        col_available := CBool (\<not> is_registered),
        col_note := CStr (case error of
                            Some msg \<Rightarrow> if msg \<noteq> [] then msg
                                        else if is_registered then (zh_registered) else (lit ''DNS'' @ zh_no_record_maybe_free)
                          | None \<Rightarrow> if is_registered then (zh_registered) else (lit ''DNS'' @ zh_no_record_maybe_free)))"

definition dns_step :: "(ustr \<Rightarrow> resolution) \<Rightarrow> row list \<times> world \<Rightarrow> ustr \<Rightarrow> row list \<times> world" where
  "dns_step gethostbyname s d =
     (let (new_rows, w) = s;
          (domain, is_registered, error) = dns_check (gethostbyname d) d;
          w1 = (case error of
                  Some msg \<Rightarrow> if msg \<noteq> [] then log_error w domain msg else w
                | None \<Rightarrow> w);
          w2 = (if \<not> is_registered then save_available_domain w1 domain (zh_awaiting @ lit ''API'' @ zh_verification) else w1)
      in (new_rows @ [dns_row domain is_registered error], w2))"

definition run_dns_batch ::
  "python \<Rightarrow> (ustr \<Rightarrow> resolution) \<Rightarrow> (ustr list \<Rightarrow> ustr list) \<Rightarrow> world \<Rightarrow> ustr list
     \<Rightarrow> dataframe \<Rightarrow> int \<Rightarrow> exn + dataframe \<times> world"
where
  "run_dns_batch py gethostbyname dns_completed w domains checked_df max_workers =
     (if max_workers \<le> 0 then raise py ValueError (JNum max_workers)
      else
        (let (new_rows, w') = foldl (dns_step gethostbyname) ([], w) (dns_completed domains)
         in Inr (concat_rows checked_df ledger_columns new_rows, w')))"

section \<open>Registrar verification\<close>

text \<open>What the verifier writes into the \<^verbatim>\<open>available\<close> column for an availability.\<close>

definition cell_of_availability :: "bool option \<Rightarrow> cell" where
  "cell_of_availability a = (case a of Some b \<Rightarrow> CBool b | None \<Rightarrow> CNaN)"

definition rate_limit_of :: "ustr \<Rightarrow> real" where
  "rate_limit_of provider =
     (if lower provider = lit ''dynadot'' then RATE_LIMIT_DYNADOT else RATE_LIMIT_PORKBUN)"

subsection \<open>\<^verbatim>\<open>run_sequential_api_verification\<close>\<close>

text \<open>
  One round of the loop. With no active provider \<^verbatim>\<open>provider.lower()\<close> raises on
  \<^verbatim>\<open>None\<close>, and without a \<^verbatim>\<open>domain\<close> column the mask raises; the \<^verbatim>\<open>except\<close>
  clause logs either and the loop goes on with the next domain.
\<close>

definition sequential_step ::
  "python \<Rightarrow> env \<Rightarrow> api_config \<Rightarrow> dataframe \<times> world \<Rightarrow> ustr \<Rightarrow> dataframe \<times> world"
where
  "sequential_step py e ac s d =
     (let (checked_df, w) = s;
          (provider, w1) = get_random_active_provider e w ac
      in case provider of
           None \<Rightarrow>
             (checked_df, log_error w1 d ((lit ''API'' @ zh_verification @ zh_failed @ lit '': '') @ message py AttributeError JNull))
         | Some p \<Rightarrow>
             (let rate_limit = rate_limit_of p;
                  ((domain, is_available, note), w2) = api_check py e w1 d ac (Some p);
                  ((domain, is_available, note), w3) =
                     (if is_available = None \<and> sublist zh_rate_limit note
                      then api_check py e (sleep e w2 rate_limit) domain ac None
                      else ((domain, is_available, note), w2))
              in case eq_mask py checked_df col_domain (CStr domain) of
                   Inl (Exn c msg) \<Rightarrow> (checked_df, log_error w3 domain ((lit ''API'' @ zh_verification @ zh_failed @ lit '': '') @ msg))
                 | Inr row_mask \<Rightarrow>
                     (let df1 = loc_set checked_df row_mask col_api_verified (CBool True);
                          (df2, w4) =
                             (if is_available = Some True
                              then (loc_set (loc_set df1 row_mask col_available (CBool True))
                                      row_mask col_note (CStr note),
                                    save_available_domain w3 domain ((lit ''API'' @ zh_confirmed @ lit '' - '') @ note))
                              else (loc_set (loc_set df1 row_mask col_available (CBool False))
                                      row_mask col_note (CStr note),
                                    w3))
                      in (df2, sleep e w4 rate_limit))))"

definition run_sequential_api_verification ::
  "python \<Rightarrow> env \<Rightarrow> world \<Rightarrow> ustr list \<Rightarrow> dataframe \<Rightarrow> api_config \<Rightarrow> dataframe \<times> world"
where
  "run_sequential_api_verification py e w domains checked_df ac =
     foldl (sequential_step py e ac) (checked_df, w) domains"

subsection \<open>\<^verbatim>\<open>process_api_batch\<close>: one provider lane\<close>

text \<open>
  One round of the lane's loop. \<^verbatim>\<open>api_check\<close> catches every exception of the request
  and of the decoding, so the \<^verbatim>\<open>except\<close> clause of this loop has nothing to catch.
\<close>

definition process_api_step ::
  "python \<Rightarrow> env \<Rightarrow> api_config \<Rightarrow> ustr \<Rightarrow> verdict list \<times> world \<Rightarrow> ustr \<Rightarrow> verdict list \<times> world"
where
  "process_api_step py e ac provider s d =
     (let (results, w) = s;
          ((domain, is_available, note), w1) = api_check py e w d ac (Some provider);
          w2 = (if is_available = Some True
                then save_available_domain w1 domain ((lit ''API'' @ zh_confirmed @ lit '' - '') @ note)
                else w1)
      in (results @ [(domain, is_available, note)], sleep e w2 (rate_limit_of provider)))"

definition process_api_batch ::
  "python \<Rightarrow> env \<Rightarrow> world \<Rightarrow> ustr list \<Rightarrow> ustr \<Rightarrow> api_config \<Rightarrow> verdict list \<times> world"
where
  "process_api_batch py e w domains provider ac =
     foldl (process_api_step py e ac provider) ([], w) domains"

subsection \<open>\<^verbatim>\<open>run_parallel_api_verification\<close>\<close>

text \<open>A \<^verbatim>\<open>dict\<close> that keeps insertion order: \<^verbatim>\<open>d[k] = v\<close>.\<close>

fun dict_set :: "('k \<times> 'v) list \<Rightarrow> 'k \<Rightarrow> 'v \<Rightarrow> ('k \<times> 'v) list" where
  "dict_set [] k v = [(k, v)]"
| "dict_set ((k', v') # kvs) k v =
     (if k' = k then (k, v) # kvs else (k', v') # dict_set kvs k v)"

text \<open>The round-robin assignment \<^verbatim>\<open>domain_to_provider\<close>.\<close>

definition assign_providers :: "ustr list \<Rightarrow> ustr list \<Rightarrow> (ustr \<times> ustr) list" where
  "assign_providers provider_list domains =
     foldl (\<lambda>d2p (i, domain).
              dict_set d2p domain (provider_list ! (i mod length provider_list)))
       [] (zip [0 ..< length domains] domains)"

text \<open>The grouping \<^verbatim>\<open>provider_to_domains\<close>, whose items are the tasks.\<close>

definition group_by_provider :: "(ustr \<times> ustr) list \<Rightarrow> (ustr \<times> ustr list) list" where
  "group_by_provider d2p =
     foldl (\<lambda>p2d (domain, provider).
              dict_set p2d provider
                ((case map_of p2d provider of Some ds \<Rightarrow> ds | None \<Rightarrow> []) @ [domain]))
       [] d2p"

text \<open>One round of the loop that writes the lanes' results into the table.\<close>

definition parallel_update :: "python \<Rightarrow> exn + dataframe \<Rightarrow> verdict \<Rightarrow> exn + dataframe" where
  "parallel_update py s v =
     and_then s (\<lambda>checked_df.
       case v of (domain, is_available, note) \<Rightarrow>
         and_then (eq_mask py checked_df col_domain (CStr domain)) (\<lambda>row_mask.
           if True \<in> set row_mask
           then Inr (loc_set
                       (loc_set (loc_set checked_df row_mask col_api_verified (CBool True))
                          row_mask col_available (cell_of_availability is_available))
                       row_mask col_note (CStr note))
           else Inr checked_df))"

text \<open>
  Each lane runs in a thread of its own: \<open>lane_env\<close> is the environment as the lane
  of a provider meets it, \<open>lane_start\<close> the state in which the lanes start, and
  \<open>as_completed\<close> the order in which the lanes' futures complete. A pool of no workers
  cannot be made (\<^verbatim>\<open>ValueError\<close>).
\<close>

record lanes =
  lane_env :: "ustr \<Rightarrow> env"
  lane_start :: world
  as_completed :: "verdict list list \<Rightarrow> verdict list list"

definition run_parallel_api_verification ::
  "python \<Rightarrow> lanes \<Rightarrow> ustr list \<Rightarrow> dataframe \<Rightarrow> api_config \<Rightarrow> int \<Rightarrow> exn + dataframe"
where
  "run_parallel_api_verification py lns domains checked_df ac max_workers =
     (let provider_list = active_providers ac
      in if provider_list = [] then Inr checked_df
         else
           (let tasks = group_by_provider (assign_providers provider_list domains)
            in if min max_workers (int (length tasks)) \<le> 0
               then raise py ValueError (JNum (min max_workers (int (length tasks))))
               else
                 (let batches = map (\<lambda>(provider, provider_domains).
                                       fst (process_api_batch py (lane_env lns provider)
                                              (lane_start lns) provider_domains provider ac))
                                    tasks;
                      results = concat (as_completed lns batches)
                  in foldl (parallel_update py) (Inr checked_df) results)))"

subsection \<open>\<^verbatim>\<open>batch_check\<close> of the two clients\<close>

text \<open>
  \<^verbatim>\<open>"..." in note or "..." in note\<close>: the note counts as an error.
\<close>

definition is_error_note :: "ustr \<Rightarrow> bool" where
  "is_error_note note \<longleftrightarrow> sublist zh_error note \<or> sublist zh_exception note"

text \<open>
  The loop of \<^verbatim>\<open>batch_check\<close>. \<open>results\<close> holds the assignments
  \<^verbatim>\<open>results[domain] = (available, note)\<close> in the order they were made; the dict that the
  method returns is their list read with the last assignment to a key winning.
  \<open>check\<close> is the client's \<^verbatim>\<open>check_domain\<close>, \<open>retry\<close> says whether the loop handles
  a rate-limit rejection (Porkbun's does, Dynadot's has no such lines).
\<close>

type_synonym assignment = "ustr \<times> bool option \<times> ustr"

type_synonym check_domain =
  "world \<Rightarrow> client \<Rightarrow> ustr \<Rightarrow> (bool option \<times> ustr) \<times> client \<times> world"

text \<open>The call of \<^verbatim>\<open>check_domain\<close> in the loop and, in Porkbun's loop, the retry.\<close>

definition check_with_retry ::
  "check_domain \<Rightarrow> bool \<Rightarrow> env \<Rightarrow> world \<Rightarrow> client \<Rightarrow> ustr \<Rightarrow> (bool option \<times> ustr) \<times> client \<times> world"
where
  "check_with_retry check retry e w self domain =
     (let ((available, note), self1, w1) = check w self domain
      in if retry \<and> available = None \<and> sublist zh_rate_limit note
         then check (sleep e w1 RATE_LIMIT_PORKBUN) self1 domain
         else ((available, note), self1, w1))"

fun batch_loop ::
  "check_domain \<Rightarrow> bool \<Rightarrow> env \<Rightarrow> int \<Rightarrow> ustr list \<Rightarrow> assignment list \<Rightarrow> int \<Rightarrow> client \<Rightarrow> world
     \<Rightarrow> assignment list \<times> client \<times> world"
where
  "batch_loop check retry e max_errors [] results consecutive_errors self w =
     (results, self, w)"
| "batch_loop check retry e max_errors (domain # rest) results consecutive_errors self w =
     (let ((available, note), self', w') = check_with_retry check retry e w self domain;
          results = results @ [(domain, available, note)]
      in if is_error_note note
         then (if consecutive_errors + 1 \<ge> max_errors
               then (results, self', w')
               else batch_loop check retry e max_errors rest results (consecutive_errors + 1)
                      self' w')
         else batch_loop check retry e max_errors rest results 0 self' w')"

definition as_dict :: "assignment list \<Rightarrow> ustr \<Rightarrow> (bool option \<times> ustr) option" where
  "as_dict results = map_of (rev results)"

definition PorkbunAPI_batch_check ::
  "python \<Rightarrow> env \<Rightarrow> world \<Rightarrow> client \<Rightarrow> ustr list \<Rightarrow> int
     \<Rightarrow> (ustr \<Rightarrow> (bool option \<times> ustr) option) \<times> client \<times> world"
where
  "PorkbunAPI_batch_check py e w self domains max_errors =
     (let (results, self', w') =
            batch_loop (PorkbunAPI_check_domain py e) True e max_errors
              domains [] 0 self w
      in (as_dict results, self', w'))"

definition DynadotAPI_batch_check ::
  "python \<Rightarrow> env \<Rightarrow> world \<Rightarrow> client \<Rightarrow> ustr list \<Rightarrow> int
     \<Rightarrow> (ustr \<Rightarrow> (bool option \<times> ustr) option) \<times> client \<times> world"
where
  "DynadotAPI_batch_check py e w self domains max_errors =
     (let (results, self', w') =
            batch_loop (DynadotAPI_check_domain py e) False e max_errors
              domains [] 0 self w
      in (as_dict results, self', w'))"

section \<open>Orchestration\<close>

text \<open>\<^verbatim>\<open>run_api_verification\<close>: the choice between the two strategies.\<close>

definition run_api_verification ::
  "python \<Rightarrow> env \<Rightarrow> lanes \<Rightarrow> world \<Rightarrow> ustr list \<Rightarrow> dataframe \<Rightarrow> api_config \<Rightarrow> bool \<Rightarrow> int
     \<Rightarrow> exn + dataframe"
where
  "run_api_verification py e lns w domains checked_df ac use_multi_api max_workers =
     (if active_providers ac = [] then Inr checked_df
      else if \<not> use_multi_api \<or> max_workers \<le> 1
      then Inr (fst (run_sequential_api_verification py e w domains checked_df ac))
      else run_parallel_api_verification py lns domains checked_df ac max_workers)"

text \<open>
  The rows that wait for the registrar: \<^verbatim>\<open>dns_checked == True\<close>,
  \<^verbatim>\<open>api_verified == False\<close> and \<^verbatim>\<open>available == True\<close>. Their \<^verbatim>\<open>domain\<close> cells are
  taken where they are strings, as the rows that \<^verbatim>\<open>run_dns_batch\<close> writes have them.
\<close>

definition is_true :: "cell \<Rightarrow> bool" where
  "is_true c \<longleftrightarrow> c = CBool True \<or> c = CNum 1"

definition is_false :: "cell \<Rightarrow> bool" where
  "is_false c \<longleftrightarrow> c = CBool False \<or> c = CNum 0"

definition pending_domains :: "python \<Rightarrow> dataframe \<Rightarrow> exn + ustr list" where
  "pending_domains py df =
     (case filter (\<lambda>c. c \<notin> set (columns df))
             [col_dns_checked, col_api_verified, col_available, col_domain] of
        c # cs \<Rightarrow> raise py KeyError (JStr c)
      | [] \<Rightarrow>
          Inr (concat (map (\<lambda>r. if is_true (r col_dns_checked) \<and> is_false (r col_api_verified)
                                     \<and> is_true (r col_available)
                                  then (case r col_domain of CStr s \<Rightarrow> [s] | _ \<Rightarrow> [])
                                  else [])
                           (rows df))))"

text \<open>The arguments of the command line that the run depends on.\<close>

record args =
  arg_characters :: ustr
  arg_length :: int
  arg_limit :: int
  arg_prefix :: ustr
  arg_suffix :: ustr
  arg_tld :: ustr
  arg_pattern :: "ustr option"
  arg_letters :: bool
  arg_digits :: bool
  arg_alphanumeric :: bool
  arg_threads :: int
  arg_api_workers :: int
  arg_verify_api :: bool
  arg_only_verify_api :: bool

text \<open>
  What a run meets outside: the interpreter's renderings, the resolver and the order in
  which the DNS futures complete, the environment of a sequential verification and of
  the lanes of a parallel one, the state at the start, the provider configuration as
  \<^verbatim>\<open>APIConfig.from_file\<close> loads it, and the ledger file.
\<close>

record outside =
  out_python :: python
  out_gethostbyname :: "ustr \<Rightarrow> resolution"
  out_dns_completed :: "ustr list \<Rightarrow> ustr list"
  out_env :: env
  out_lanes :: lanes
  out_world :: world
  out_api_config :: api_config
  out_ledger_file :: "(exn + dataframe) option"

text \<open>
  \<^verbatim>\<open>run_api_verification_stage\<close>. The result is the list of tables that
  \<^verbatim>\<open>save_checked_domains\<close> writes to the ledger file, or the exception that ends the run.
\<close>

definition run_api_verification_stage ::
  "outside \<Rightarrow> world \<Rightarrow> args \<Rightarrow> dataframe \<Rightarrow> ustr list option \<Rightarrow> exn + dataframe list"
where
  "run_api_verification_stage out w a checked_df domains =
     (let ac = out_api_config out
      in if active_providers ac = [] then Inr []
         else
           and_then (case domains of
                       Some ds \<Rightarrow> Inr ds
                     | None \<Rightarrow> pending_domains (out_python out) checked_df) (\<lambda>domains.
             if domains = [] then Inr []
             else
               (let use_multi_api = arg_api_workers a > 1 \<and> length (active_providers ac) > 1
                in and_then (run_api_verification (out_python out) (out_env out) (out_lanes out)
                               w domains checked_df ac use_multi_api (arg_api_workers a))
                     (\<lambda>final_df. Inr [final_df]))))"

definition run_only_api_verification :: "outside \<Rightarrow> args \<Rightarrow> dataframe \<Rightarrow> exn + dataframe list" where
  "run_only_api_verification out a checked_df =
     and_then (pending_domains (out_python out) checked_df) (\<lambda>possibly_available.
       if possibly_available = [] then Inr []
       else run_api_verification_stage out (out_world out) a checked_df (Some possibly_available))"

text \<open>
  \<^verbatim>\<open>main\<close>, after the arguments are parsed: the tables written to the ledger file, in
  order, and the exception that ended the run, if one did.
\<close>

definition main :: "outside \<Rightarrow> args \<Rightarrow> dataframe list \<times> exn option" where
  "main out a =
     (let characters =
            (if arg_letters a then ascii_lowercase
             else if arg_digits a then digits
             else if arg_alphanumeric a then ascii_lowercase @ digits
             else arg_characters a);
          (checked_df, checked_set) = load_checked_domains (out_ledger_file out)
      in if arg_only_verify_api a
         then (case run_only_api_verification out a checked_df of
                 Inl x \<Rightarrow> ([], Some x)
               | Inr saved \<Rightarrow> (saved, None))
         else
           (let (logged, domains) =
                  generate_domains characters (arg_length a) (arg_limit a) (arg_prefix a)
                    (arg_suffix a) (arg_tld a) {s. CStr s \<in> checked_set} (arg_pattern a)
            in if domains = [] then ([], None)
               else
                 (case run_dns_batch (out_python out) (out_gethostbyname out)
                         (out_dns_completed out) (out_world out) domains checked_df
                         (arg_threads a) of
                    Inl x \<Rightarrow> ([], Some x)
                  | Inr (updated_df, w1) \<Rightarrow>
                      if arg_verify_api a
                      then (case run_api_verification_stage out w1 a updated_df None of
                              Inl x \<Rightarrow> ([updated_df], Some x)
                            | Inr saved \<Rightarrow> (updated_df # saved, None))
                      else ([updated_df], None))))"

section \<open>Vocabulary of the properties\<close>

text \<open>Row \<open>i\<close> of the table is marked as verified by a registrar.\<close>

definition api_verified_at :: "dataframe \<Rightarrow> nat \<Rightarrow> bool" where
  "api_verified_at df i \<longleftrightarrow>
     col_api_verified \<in> set (columns df) \<and> i < length (rows df)
     \<and> (rows df ! i) col_api_verified = CBool True"

text \<open>The table as rows of cells, in the order of the columns.\<close>

definition values_tolist :: "dataframe \<Rightarrow> cell list list" where
  "values_tolist df = map (\<lambda>r. map r (columns df)) (rows df)"

text \<open>The number of error results at the end of a list of results.\<close>

definition trailing_errors :: "assignment list \<Rightarrow> nat" where
  "trailing_errors results =
     length (takeWhile (\<lambda>(domain, available, note). is_error_note note) (rev results))"

text \<open>
  The times at which requests were issued, and what it means for times to be spaced: each
  is at least the interval after the one before.
\<close>

definition issue_times :: "(ustr \<times> ustr \<times> real) list \<Rightarrow> real list" where
  "issue_times rs = map (\<lambda>(provider, domain, t). t) rs"

fun spaced :: "real \<Rightarrow> real list \<Rightarrow> bool" where
  "spaced d [] = True"
| "spaced d [t] = True"
| "spaced d (t # u # ts) = (t + d \<le> u \<and> spaced d (u # ts))"

text \<open>
  Time does not run backwards: a request takes no less than no time, and
  \<^verbatim>\<open>time.sleep\<close> sleeps no less than it is asked to.
\<close>

definition patient :: "env \<Rightarrow> bool" where
  "patient e \<longleftrightarrow> (\<forall>k. 0 \<le> took e k \<and> 0 \<le> overslept e k)"

text \<open>
  Two facts about a \<^verbatim>\<open>check_domain\<close> that the loops over it build on: it issues one
  request, for the completed domain; and that request is issued at the time it stores in
  \<open>last_request_time\<close>, at least the interval after the time stored before.
\<close>

definition logs_request :: "check_domain \<Rightarrow> bool" where
  "logs_request check \<longleftrightarrow>
     (\<forall>w self domain. \<exists>p t. requests (snd (snd (check w self domain)))
                              = requests w @ [(p, complete_domain domain, t)])"

definition stamps :: "real \<Rightarrow> check_domain \<Rightarrow> bool" where
  "stamps interval check \<longleftrightarrow>
     (\<forall>w self domain. \<exists>p.
        requests (snd (snd (check w self domain)))
          = requests w @ [(p, complete_domain domain,
                           last_request_time (fst (snd (check w self domain))))]
        \<and> last_request_time self + interval
            \<le> last_request_time (fst (snd (check w self domain))))"

text \<open>
  The invariants of the two loops, for the requests from position \<open>n\<close> of the log on:
  they are spaced, and the interval has passed since the last of them (in a lane), or the
  last of them is the one whose time the client has stored (in a client's batch).
\<close>

definition lane_inv :: "real \<Rightarrow> nat \<Rightarrow> world \<Rightarrow> bool" where
  "lane_inv d n w \<longleftrightarrow>
     n \<le> length (requests w)
     \<and> spaced d (issue_times (drop n (requests w)))
     \<and> (n < length (requests w) \<longrightarrow> last (issue_times (requests w)) + d \<le> clock w)"

definition client_inv :: "real \<Rightarrow> nat \<Rightarrow> client \<Rightarrow> world \<Rightarrow> bool" where
  "client_inv d n self w \<longleftrightarrow>
     n \<le> length (requests w)
     \<and> spaced d (issue_times (drop n (requests w)))
     \<and> (n < length (requests w) \<longrightarrow> last (issue_times (requests w)) = last_request_time self)"

section \<open>Sample inputs\<close>

text \<open>Concrete inputs on which the theorems below are instantiated.\<close>

definition sample_python :: python where
  "sample_python = \<lparr>str_of = (\<lambda>v. lit ''?''), message = (\<lambda>c v. lit ''not supported'')\<rparr>"

definition sample_world :: world where
  "sample_world =
     \<lparr>clock = 0, requests = [], sleeps = 0, draws = 0, available_file = [], error_file = []\<rparr>"

definition constant_env :: "http \<Rightarrow> env" where
  "constant_env h =
     \<lparr>net = (\<lambda>k. h), took = (\<lambda>k. 0), overslept = (\<lambda>k. 0), draw = (\<lambda>k. 0)\<rparr>"

definition http_500 :: http where
  "http_500 =
     Response \<lparr>status_code = 500, body_text = lit ''Internal Server Error'',
               body_json = Inl (lit ''Expecting value'')\<rparr>"

definition http_rate_limited :: http where
  "http_rate_limited =
     Response \<lparr>status_code = 400,
               body_text = lit ''1 out of 1 checks within 10 seconds used.'',
               body_json = Inl (lit ''Expecting value'')\<rparr>"

definition sample_config :: config where
  "sample_config =
     [(lit ''api_key'', JStr (lit ''pk1'')), (lit ''api_secret'', JStr (lit ''sk1''))]"

definition porkbun_only :: api_config where
  "porkbun_only =
     \<lparr>providers = [(lit ''porkbun'', sample_config)], active_providers = [lit ''porkbun'']\<rparr>"

definition sample_lanes :: lanes where
  "sample_lanes =
     \<lparr>lane_env = (\<lambda>p. constant_env http_rate_limited), lane_start = sample_world,
      as_completed = (\<lambda>bs. bs)\<rparr>"

definition sample_args :: args where
  "sample_args =
     \<lparr>arg_characters = lit ''ab'', arg_length = 0, arg_limit = 1000, arg_prefix = [],
      arg_suffix = [], arg_tld = lit ''.com'', arg_pattern = None, arg_letters = False,
      arg_digits = False, arg_alphanumeric = False, arg_threads = 20, arg_api_workers = 1,
      arg_verify_api = False, arg_only_verify_api = False\<rparr>"

definition sample_table :: dataframe where
  "sample_table =
     \<lparr>columns = [col_domain], rows = [(\<lambda>c. CNaN)(col_domain := CStr (lit ''aa.com''))]\<rparr>"

definition sample_outside :: outside where
  "sample_outside =
     \<lparr>out_python = sample_python,
      out_gethostbyname = (\<lambda>d. Gaierror EAI_NONAME (lit ''Name or service not known'')),
      out_dns_completed = (\<lambda>ds. ds),
      out_env = constant_env http_500,
      out_lanes = sample_lanes,
      out_world = sample_world,
      out_api_config = porkbun_only,
      out_ledger_file = Some (Inr sample_table)\<rparr>"

definition two_providers :: api_config where
  "two_providers =
     \<lparr>providers = [(lit ''porkbun'', sample_config), (lit ''dynadot'', sample_config)],
      active_providers = [lit ''porkbun'', lit ''dynadot'']\<rparr>"

definition sample_ledger :: dataframe where
  "sample_ledger =
     \<lparr>columns = ledger_columns,
      rows = [(\<lambda>c. CNaN)
                (col_domain := CStr (lit ''aa.com''),
                 col_dns_checked := CBool True,
                 col_api_verified := CBool True,
                 col_available := CBool True,
                 col_note := CStr (lit ''Porkbun'' @ zh_price @ lit '': 9.73'')),
              dns_row (lit ''ab.com'') False None]\<rparr>"

definition six_domains :: "ustr list" where
  "six_domains =
     [lit ''aa.com'', lit ''ab.com'', lit ''ac.com'', lit ''ad.com'', lit ''ae.com'',
      lit ''af.com'']"

definition sample_client :: client where
  "sample_client =
     \<lparr>api_key = lit ''pk1'', api_secret = None, timeout = 10, last_request_time = 0\<rparr>"

definition limited_once :: env where
  "limited_once =
     \<lparr>net = (\<lambda>k. if k = 0 then http_rate_limited else http_500), took = (\<lambda>k. 0),
      overslept = (\<lambda>k. 0), draw = (\<lambda>k. 0)\<rparr>"

section \<open>Properties of the candidate generator\<close>

text \<open>
  The enumeration can be read from the left: the tuples of length \<open>n + 1\<close> are, for each
  character in the order of the alphabet, that character in front of every tuple of
  length \<open>n\<close>.
\<close>

lemma concat_map_concat_map:
  "concat (map F (concat (map G ds))) = concat (map (\<lambda>c. concat (map F (G c))) ds)"
  by (induction ds) simp_all

lemma product_repeat_leftmost:
  "product_repeat cs (Suc n) = concat (map (\<lambda>c. map ((#) c) (product_repeat cs n)) cs)"
proof (induction n)
  case 0
  show ?case by (induction cs) simp_all
next
  case (Suc n)
  let ?F = "\<lambda>x. map (\<lambda>y. x @ [y]) cs"
  have step: "concat (map ?F (map ((#) c) xs)) = map ((#) c) (concat (map ?F xs))"
    for c and xs :: "'a list list"
    by (induction xs) simp_all
  have "product_repeat cs (Suc (Suc n)) = concat (map ?F (product_repeat cs (Suc n)))"
    by simp
  also have "\<dots> = concat (map ?F (concat (map (\<lambda>c. map ((#) c) (product_repeat cs n)) cs)))"
    by (simp only: Suc.IH)
  also have "\<dots> = concat (map (\<lambda>c. concat (map ?F (map ((#) c) (product_repeat cs n)))) cs)"
    by (rule concat_map_concat_map)
  also have "\<dots> = concat (map (\<lambda>c. map ((#) c) (concat (map ?F (product_repeat cs n)))) cs)"
    by (simp only: step)
  also have "\<dots> = concat (map (\<lambda>c. map ((#) c) (product_repeat cs (Suc n))) cs)"
    by simp
  finally show ?case .
qed

lemma distinct_blocks:
  "distinct cs \<Longrightarrow> distinct P \<Longrightarrow> distinct (concat (map (\<lambda>c. map ((#) c) P) cs))"
  by (induction cs) (auto simp: distinct_map inj_on_def)

lemma distinct_product_repeat: "distinct cs \<Longrightarrow> distinct (product_repeat cs n)"
proof (induction n)
  case 0
  show ?case by simp
next
  case (Suc n)
  then show ?case
    by (simp only: product_repeat_leftmost distinct_blocks)
qed

text \<open>
  The loop, started below its limit, returns what it has plus the first candidates that
  are not excluded: all of them for \<open>limit \<le> 0\<close>, else as many as the limit leaves.
\<close>

lemma generate_loop_eq:
  "(limit > 0 \<longrightarrow> count < limit) \<Longrightarrow>
   generate_loop limit pfx sfx tld ex combos generated count =
     generated @ (if limit > 0 then take (nat (limit - count)) else (\<lambda>xs. xs))
        (filter (\<lambda>d. d \<notin> ex) (map (\<lambda>combo. pfx @ combo @ sfx @ tld) combos))"
proof (induction combos arbitrary: generated count)
  case Nil
  show ?case by simp
next
  case (Cons combo rest)
  show ?case
  proof (cases "pfx @ combo @ sfx @ tld \<in> ex")
    case True
    with Cons show ?thesis by simp
  next
    case False
    show ?thesis
    proof (cases "limit > 0 \<and> count + 1 \<ge> limit")
      case True
      with Cons.prems have "limit - count = 1" by simp
      with True False show ?thesis by simp
    next
      case stop: False
      then have "limit > 0 \<longrightarrow> count + 1 < limit" by auto
      moreover have "nat (limit - (count + 1)) = nat (limit - count) - Suc 0"
        by simp
      ultimately show ?thesis
        using Cons.IH[of "count + 1" "generated @ [pfx @ combo @ sfx @ tld]"] stop False
        by (auto simp: take_Cons')
    qed
  qed
qed

lemma generate_domains_eq:
  "snd (generate_domains characters len limit pfx sfx tld exclude_set pattern) =
     (if len \<le> 0 then []
      else (if limit > 0 then take (nat limit) else (\<lambda>xs. xs))
             (filter (\<lambda>d. d \<notin> exclude_set)
                (map (\<lambda>combo. pfx @ combo @ sfx @ tld)
                   (product_repeat (effective_characters characters pattern) (nat len)))))"
  by (simp add: generate_domains_def Let_def generate_loop_eq)

lemma distinct_letters_digits: "distinct (ascii_lowercase @ digits)"
  by (simp add: ascii_lowercase_def digits_def lit_def)

lemma distinct_effective_characters:
  "distinct characters \<Longrightarrow> distinct (effective_characters characters pattern)"
  using distinct_letters_digits
  by (auto simp: effective_characters_def Let_def split: option.splits)

lemma distinct_wrapped:
  "distinct combos \<Longrightarrow> distinct (map (\<lambda>combo. pfx @ combo @ sfx @ tld) combos)"
  by (simp add: distinct_map inj_on_def)

text \<open>
  Claim C3, as the code has it. No generated domain is in the exclude set, whatever the
  input. The generated domains are pairwise different when the characters of the alphabet
  are: the generator takes the alphabet as a string and enumerates its positions, so a
  character that occurs twice in it yields every name with that character twice.
\<close>

theorem generate_domains_distinct_fresh:
  "(distinct characters \<longrightarrow>
      distinct (snd (generate_domains characters len limit pfx sfx tld exclude_set pattern)))
   \<and> set (snd (generate_domains characters len limit pfx sfx tld exclude_set pattern))
        \<inter> exclude_set = {}"
proof -
  let ?all = "filter (\<lambda>d. d \<notin> exclude_set)
                (map (\<lambda>combo. pfx @ combo @ sfx @ tld)
                   (product_repeat (effective_characters characters pattern) (nat len)))"
  have fresh: "set ?all \<inter> exclude_set = {}" by auto
  have "set (take (nat limit) ?all) \<subseteq> set ?all" by (rule set_take_subset)
  with fresh have fresh_take: "set (take (nat limit) ?all) \<inter> exclude_set = {}" by blast
  have dist: "distinct ?all" if "distinct characters"
    using that
    by (intro distinct_filter distinct_wrapped distinct_product_repeat
          distinct_effective_characters)
  show ?thesis
    using fresh fresh_take dist
    by (simp only: generate_domains_eq split: if_split) simp
qed

theorem generate_domains_distinct_fresh_witness:
  "distinct (lit ''ab'')
   \<and> distinct (snd (generate_domains (lit ''ab'') 2 0 [] [] (lit ''.com'') {lit ''ab.com''} None))
   \<and> set (snd (generate_domains (lit ''ab'') 2 0 [] [] (lit ''.com'') {lit ''ab.com''} None))
        \<inter> {lit ''ab.com''} = {}"
  using generate_domains_distinct_fresh
          [of "lit ''ab''" 2 0 "[]" "[]" "lit ''.com''" "{lit ''ab.com''}" None]
  by (simp add: lit_def)

text \<open>
  The claim as the specification states it, for every alphabet, fails: the alphabet
  \<^verbatim>\<open>"aa"\<close> with length 1 yields \<^verbatim>\<open>a.com\<close> twice.
\<close>

theorem generate_domains_duplicates:
  "\<not> distinct (snd (generate_domains (lit ''aa'') 1 0 [] [] (lit ''.com'') {} None))"
  by (simp add: generate_domains_def effective_characters_def lit_def Let_def)

text \<open>
  Claim C6. The example of the specification; the output in general, which is the
  enumeration \<^const>\<open>product_repeat\<close> of the tuples, each between prefix and suffix and
  top-level domain, without the excluded names and cut at the limit; and the order of that
  enumeration, in which the leftmost character varies slowest.
\<close>

theorem generate_domains_lexicographic:
  "snd (generate_domains (lit ''ab'') 2 3 [] [] (lit ''.com'') {} None)
     = [lit ''aa.com'', lit ''ab.com'', lit ''ba.com'']
   \<and> snd (generate_domains characters len limit pfx sfx tld exclude_set pattern)
     = (if len \<le> 0 then []
        else (if limit > 0 then take (nat limit) else (\<lambda>xs. xs))
               (filter (\<lambda>d. d \<notin> exclude_set)
                  (map (\<lambda>combo. pfx @ combo @ sfx @ tld)
                     (product_repeat (effective_characters characters pattern) (nat len)))))
   \<and> product_repeat characters (Suc n)
     = concat (map (\<lambda>c. map ((#) c) (product_repeat characters n)) characters)"
proof (intro conjI)
  show "snd (generate_domains (lit ''ab'') 2 3 [] [] (lit ''.com'') {} None)
          = [lit ''aa.com'', lit ''ab.com'', lit ''ba.com'']"
    by (simp add: generate_domains_def effective_characters_def lit_def numeral_2_eq_2 Let_def)
qed (rule generate_domains_eq, rule product_repeat_leftmost)

theorem generate_domains_lexicographic_witness:
  "snd (generate_domains (lit ''ab'') 2 0 [] [] [] {} None)
     = [lit ''aa'', lit ''ab'', lit ''ba'', lit ''bb'']
   \<and> product_repeat (lit ''ab'') (Suc 1)
     = concat (map (\<lambda>c. map ((#) c) (product_repeat (lit ''ab'') 1)) (lit ''ab''))"
  using generate_domains_lexicographic [of "lit ''ab''" 2 0 "[]" "[]" "[]" "{}" None 1]
  by (simp add: effective_characters_def lit_def numeral_2_eq_2)

text \<open>
  Claim C8. With a length of zero or less the generator logs the error and generates
  nothing, whatever its other arguments; a run of \<^const>\<open>main\<close> that generates domains
  then stops before the DNS stage and writes nothing to the ledger file.
\<close>

theorem generate_domains_length_error:
  "arg_length a \<le> 0 \<Longrightarrow> \<not> arg_only_verify_api a \<Longrightarrow>
     generate_domains characters (arg_length a) limit pfx sfx tld exclude_set pattern
       = ([ErrorLengthNotPositive], [])
     \<and> main out a = ([], None)"
  by (simp add: main_def generate_domains_def Let_def split: prod.splits)

theorem generate_domains_length_error_witness:
  "arg_length sample_args \<le> 0 \<and> \<not> arg_only_verify_api sample_args
   \<and> generate_domains (lit ''ab'') (arg_length sample_args) 3 [] [] (lit ''.com'') {} None
       = ([ErrorLengthNotPositive], [])
   \<and> main sample_outside sample_args = ([], None)"
  using generate_domains_length_error
          [of sample_args "lit ''ab''" 3 "[]" "[]" "lit ''.com''" "{}" None sample_outside]
  by (simp add: sample_args_def)

section \<open>Properties of the DNS probe\<close>

lemma foldl_dns_step_length:
  "length (fst (foldl (dns_step g) (new_rows, w) ds)) = length new_rows + length ds"
  by (induction ds arbitrary: new_rows w) (simp_all add: dns_step_def Let_def split: prod.splits)

text \<open>
  Claim C4, as the code has it. The probe has a result for each of the three ways the
  lookup can end, so it never raises: an address means registered, any
  \<^verbatim>\<open>socket.gaierror\<close> means not registered, both without an error; any other exception
  means registered, with a message. A batch with a pool of at least one worker ends with
  one new row for every completed probe.
\<close>

theorem dns_check_classification:
  "dns_check (Address a) domain = (domain, True, None)
   \<and> dns_check (Gaierror errno strerror) domain = (domain, False, None)
   \<and> (\<exists>error. dns_check (OtherException msg) domain = (domain, True, Some error) \<and> error \<noteq> [])
   \<and> (0 < max_workers \<longrightarrow>
        (\<exists>df' w'. run_dns_batch py gethostbyname dns_completed w domains checked_df max_workers
                     = Inr (df', w')
                 \<and> length (rows df') = length (rows checked_df) + length (dns_completed domains)))"
proof -
  have "length (rows (concat_rows checked_df ledger_columns new_rows))
          = length (rows checked_df) + length new_rows" for new_rows
    by (simp add: concat_rows_def)
  then show ?thesis
    using foldl_dns_step_length[of gethostbyname "[]" w "dns_completed domains"]
    by (auto simp: dns_check_def run_dns_batch_def Let_def lit_def split: prod.splits)
qed

theorem dns_check_classification_witness:
  "(0::int) < 20
   \<and> dns_check (Address (lit ''93.184.216.34'')) (lit ''example.com'')
       = (lit ''example.com'', True, None)
   \<and> dns_check (Gaierror EAI_NONAME (lit ''Name or service not known'')) (lit ''aa.com'')
       = (lit ''aa.com'', False, None)
   \<and> (\<exists>df' w'. run_dns_batch sample_python (out_gethostbyname sample_outside)
                   (out_dns_completed sample_outside) sample_world
                   [lit ''aa.com'', lit ''ab.com''] sample_table 20 = Inr (df', w')
              \<and> length (rows df') = 3)"
  using dns_check_classification
          [of "lit ''93.184.216.34''" "lit ''example.com''" EAI_NONAME
              "lit ''Name or service not known''" "[]" 20 sample_python
              "out_gethostbyname sample_outside" "out_dns_completed sample_outside"
              sample_world "[lit ''aa.com'', lit ''ab.com'']" sample_table]
  by (auto simp: sample_table_def sample_outside_def dns_check_def numeral_3_eq_3)

text \<open>
  The claim as the specification states it fails for a resolution error that is not
  "no such name" and is a \<^verbatim>\<open>socket.gaierror\<close> all the same: when the resolver cannot
  be reached or times out, the lookup raises \<^verbatim>\<open>gaierror\<close> with \<^verbatim>\<open>EAI_AGAIN\<close>, and the
  probe reports the domain as not registered, with no error.
\<close>

theorem dns_check_temporary_failure:
  "EAI_AGAIN \<noteq> EAI_NONAME
   \<and> dns_check (Gaierror EAI_AGAIN (lit ''Temporary failure in name resolution''))
         (lit ''example.com'')
       = (lit ''example.com'', False, None)"
  by (simp add: dns_check_def EAI_AGAIN_def EAI_NONAME_def)

section \<open>Properties of the registrar checks\<close>

lemma dynadot_first_result_Some: "dynadot_first_result py r = Inr (a, n) \<Longrightarrow> a \<noteq> None"
  by (auto simp: dynadot_first_result_def and_then_def split: sum.splits if_splits)

lemma dynadot_ok_Some: "dynadot_ok py d = Inr (a, n) \<Longrightarrow> a \<noteq> None"
  by (auto simp: dynadot_ok_def and_then_def
           split: sum.splits if_splits json.splits list.splits
           dest: dynadot_first_result_Some)

lemma dynadot_check_Some: "fst (snd (fst (dynadot_check py e w domain config))) \<noteq> None"
  by (auto simp: dynadot_check_def Let_def
           split: prod.splits http.splits exn.splits sum.splits
           dest: dynadot_ok_Some)

lemma DynadotAPI_first_result_Some: "DynadotAPI_first_result py r = Inr (a, n) \<Longrightarrow> a \<noteq> None"
  by (auto simp: DynadotAPI_first_result_def and_then_def split: sum.splits if_splits)

lemma DynadotAPI_ok_Some: "DynadotAPI_ok py d = Inr (a, n) \<Longrightarrow> a \<noteq> None"
  by (auto simp: DynadotAPI_ok_def and_then_def
           split: sum.splits if_splits json.splits list.splits
           dest: DynadotAPI_first_result_Some)

lemma client_except_Some: "fst (client_except x) \<noteq> None"
  by (cases x) (auto simp: client_except_def)

lemma DynadotAPI_check_domain_Some:
  "fst (fst (DynadotAPI_check_domain py e w self domain)) \<noteq> None"
  using client_except_Some
  by (auto simp: DynadotAPI_check_domain_def Let_def
           split: prod.splits http.splits sum.splits
           dest: DynadotAPI_ok_Some)

lemma porkbun_ok_Some: "porkbun_ok py r = Inr (a, n) \<Longrightarrow> a \<noteq> None"
  by (auto simp: porkbun_ok_def and_then_def split: sum.splits if_splits)

lemma porkbun_check_None:
  "fst (snd (fst (porkbun_check py e w domain config))) = None \<longleftrightarrow>
     (\<exists>r. net e (length (requests w)) = Response r \<and> status_code r = 400
          \<and> sublist rate_limit_marker (body_text r))"
  by (auto simp: porkbun_check_def http_request_def Let_def
           split: prod.splits http.splits exn.splits sum.splits
           dest: porkbun_ok_Some)

text \<open>
  Claim C10. Whatever the configuration and however the request ends, the availability
  that \<^verbatim>\<open>dynadot_check\<close> and \<^verbatim>\<open>DynadotAPI.check_domain\<close> return is \<^verbatim>\<open>True\<close> or
  \<^verbatim>\<open>False\<close>; \<^verbatim>\<open>porkbun_check\<close> returns \<^verbatim>\<open>None\<close> exactly when its request is
  answered with status 400 and a body that contains \<^verbatim>\<open>within 10 seconds used\<close>.
\<close>

theorem only_porkbun_returns_unknown:
  "fst (snd (fst (dynadot_check py e w domain config))) \<noteq> None
   \<and> fst (fst (DynadotAPI_check_domain py e w self domain)) \<noteq> None
   \<and> (fst (snd (fst (porkbun_check py e w domain config))) = None \<longleftrightarrow>
        (\<exists>r. net e (length (requests w)) = Response r \<and> status_code r = 400
             \<and> sublist rate_limit_marker (body_text r)))"
  using dynadot_check_Some DynadotAPI_check_domain_Some porkbun_check_None
  by blast

theorem only_porkbun_returns_unknown_witness:
  "fst (snd (fst (dynadot_check sample_python (constant_env http_rate_limited) sample_world
                    (lit ''aa.com'') sample_config))) \<noteq> None
   \<and> fst (snd (fst (porkbun_check sample_python (constant_env http_rate_limited) sample_world
                    (lit ''aa.com'') sample_config))) = None
   \<and> fst (snd (fst (porkbun_check sample_python (constant_env http_500) sample_world
                    (lit ''aa.com'') sample_config))) \<noteq> None"
proof -
  have limited: "sublist rate_limit_marker (lit ''1 out of 1 checks within 10 seconds used.'')"
    unfolding rate_limit_marker_def lit_def by code_simp
  show ?thesis
    using only_porkbun_returns_unknown
            [of sample_python "constant_env http_rate_limited" sample_world "lit ''aa.com''"
                sample_config sample_client]
          only_porkbun_returns_unknown
            [of sample_python "constant_env http_500" sample_world "lit ''aa.com''"
                sample_config sample_client]
          limited
    by (simp add: constant_env_def http_rate_limited_def http_500_def sample_world_def)
qed

section \<open>Properties of the ledger\<close>

lemma column_names:
  "col_domain \<noteq> col_dns_checked" "col_domain \<noteq> col_api_verified"
  "col_domain \<noteq> col_available" "col_domain \<noteq> col_note"
  "col_dns_checked \<noteq> col_api_verified" "col_dns_checked \<noteq> col_available"
  "col_dns_checked \<noteq> col_note" "col_api_verified \<noteq> col_available"
  "col_api_verified \<noteq> col_note" "col_available \<noteq> col_note"
  by (simp_all add: col_domain_def col_dns_checked_def col_api_verified_def col_available_def
        col_note_def lit_def)

subsection \<open>Loading\<close>

lemma columns_ensure_column:
  "set (columns (ensure_column col df)) = insert col (set (columns df))"
  by (auto simp: ensure_column_def set_column_def)

lemma rows_ensure_column:
  "rows (ensure_column col df) =
     (if col \<in> set (columns df) then rows df
      else map (\<lambda>r. r(col := (if col \<noteq> col_domain then CBool False else CStr []))) (rows df))"
  by (simp add: ensure_column_def set_column_def)

lemma columns_fold_ensure:
  "set (columns (fold ensure_column cols df)) = set cols \<union> set (columns df)"
  by (induction cols arbitrary: df) (auto simp: columns_ensure_column)

lemma length_rows_fold_ensure:
  "length (rows (fold ensure_column cols df)) = length (rows df)"
  by (induction cols arbitrary: df) (simp_all add: rows_ensure_column)

lemma old_column_fold_ensure:
  "c \<in> set (columns df) \<Longrightarrow>
     map (\<lambda>r. r c) (rows (fold ensure_column cols df)) = map (\<lambda>r. r c) (rows df)"
proof (induction cols arbitrary: df)
  case Nil
  show ?case by simp
next
  case (Cons col cols)
  have "c \<in> set (columns (ensure_column col df))"
    using Cons.prems by (simp add: columns_ensure_column)
  then have "map (\<lambda>r. r c) (rows (fold ensure_column cols (ensure_column col df)))
               = map (\<lambda>r. r c) (rows (ensure_column col df))"
    by (rule Cons.IH)
  also have "\<dots> = map (\<lambda>r. r c) (rows df)"
    using Cons.prems by (auto simp: rows_ensure_column)
  finally show ?case by simp
qed

lemma new_column_fold_ensure:
  "c \<in> set cols \<Longrightarrow> c \<notin> set (columns df) \<Longrightarrow>
     r \<in> set (rows (fold ensure_column cols df)) \<Longrightarrow>
     r c = (if c \<noteq> col_domain then CBool False else CStr [])"
proof (induction cols arbitrary: df)
  case Nil
  then show ?case by simp
next
  case (Cons col cols)
  show ?case
  proof (cases "c = col")
    case True
    have in_cols: "c \<in> set (columns (ensure_column col df))"
      using True by (simp add: columns_ensure_column)
    have "r c \<in> set (map (\<lambda>r. r c) (rows (fold ensure_column cols (ensure_column col df))))"
      using Cons.prems(3) by auto
    then have "r c \<in> set (map (\<lambda>r. r c) (rows (ensure_column col df)))"
      by (simp only: old_column_fold_ensure[OF in_cols])
    then show ?thesis
      using True Cons.prems(2) by (auto simp: rows_ensure_column)
  next
    case False
    then have "c \<in> set cols" "c \<notin> set (columns (ensure_column col df))"
      using Cons.prems by (auto simp: columns_ensure_column)
    then show ?thesis
      using Cons.IH[of "ensure_column col df"] Cons.prems(3) by simp
  qed
qed

text \<open>
  Claim C7, as the code has it. Loading never fails: an absent or unreadable file gives
  the empty ledger with its five columns. A table that was read keeps its rows and the
  cells of the columns it has, and gets each of \<^verbatim>\<open>domain\<close>, \<^verbatim>\<open>dns_checked\<close>,
  \<^verbatim>\<open>api_verified\<close> and \<^verbatim>\<open>available\<close> that it lacks, filled with the empty string for
  \<^verbatim>\<open>domain\<close> and with \<^verbatim>\<open>False\<close> for the three flags. The \<^verbatim>\<open>note\<close> column is not
  among the columns that are filled in: the loaded table has it just when the file has.
\<close>

theorem load_checked_domains_backfill:
  "load_checked_domains None = (empty_ledger, {})
   \<and> load_checked_domains (Some (Inl x)) = (empty_ledger, {})
   \<and> set required_columns \<subseteq> set (columns (fst (load_checked_domains (Some (Inr table)))))
   \<and> length (rows (fst (load_checked_domains (Some (Inr table))))) = length (rows table)
   \<and> (c \<in> set (columns table) \<longrightarrow>
        c \<in> set (columns (fst (load_checked_domains (Some (Inr table)))))
        \<and> map (\<lambda>r. r c) (rows (fst (load_checked_domains (Some (Inr table)))))
            = map (\<lambda>r. r c) (rows table))
   \<and> (c \<in> set required_columns \<and> c \<notin> set (columns table)
        \<and> r \<in> set (rows (fst (load_checked_domains (Some (Inr table))))) \<longrightarrow>
        r c = (if c = col_domain then CStr [] else CBool False))
   \<and> (col_note \<in> set (columns (fst (load_checked_domains (Some (Inr table)))))
        \<longleftrightarrow> col_note \<in> set (columns table))"
proof -
  have loaded: "fst (load_checked_domains (Some (Inr table)))
                  = fold ensure_column required_columns table"
    by (simp add: load_checked_domains_def Let_def)
  have no_note: "col_note \<notin> set required_columns"
    using column_names by (simp add: required_columns_def)
  show ?thesis
    unfolding loaded
    using new_column_fold_ensure[of c required_columns table r] no_note
    by (auto simp: load_checked_domains_def columns_fold_ensure length_rows_fold_ensure
          old_column_fold_ensure)
qed

theorem load_checked_domains_backfill_witness:
  "col_api_verified \<in> set required_columns \<and> col_api_verified \<notin> set (columns sample_table)
   \<and> col_domain \<in> set (columns sample_table)
   \<and> map (\<lambda>r. r col_api_verified)
        (rows (fst (load_checked_domains (Some (Inr sample_table))))) = [CBool False]
   \<and> map (\<lambda>r. r col_domain)
        (rows (fst (load_checked_domains (Some (Inr sample_table))))) = [CStr (lit ''aa.com'')]"
proof -
  have names: "col_api_verified \<in> set required_columns"
      "col_api_verified \<notin> set (columns sample_table)"
      "col_domain \<in> set (columns sample_table)"
    using column_names by (simp_all add: required_columns_def sample_table_def)
  obtain r where r: "rows (fst (load_checked_domains (Some (Inr sample_table)))) = [r]"
    using load_checked_domains_backfill[of "Exn OtherError []" sample_table col_domain "\<lambda>c. CNaN"]
    by (cases "rows (fst (load_checked_domains (Some (Inr sample_table))))")
       (auto simp: sample_table_def)
  show ?thesis
    using names r column_names
      load_checked_domains_backfill[of "Exn OtherError []" sample_table col_api_verified r]
      load_checked_domains_backfill[of "Exn OtherError []" sample_table col_domain r]
    by (auto simp: sample_table_def)
qed

text \<open>
  The claim as the specification states it fails for the \<^verbatim>\<open>note\<close> column: a ledger
  file with the \<^verbatim>\<open>domain\<close> column alone loads as a table without a \<^verbatim>\<open>note\<close> column.
\<close>

theorem load_note_not_backfilled:
  "col_note \<notin> set (columns (fst (load_checked_domains (Some (Inr sample_table)))))"
  using column_names
  by (simp add: load_checked_domains_def Let_def columns_ensure_column sample_table_def
        required_columns_def)

subsection \<open>Verification marks\<close>

lemma eq_mask_length: "eq_mask py df col v = Inr m \<Longrightarrow> length m = length (rows df)"
  by (auto simp: eq_mask_def raise_def split: if_splits)

lemma length_rows_loc_set:
  "length m = length (rows df) \<Longrightarrow> length (rows (loc_set df m col v)) = length (rows df)"
  by (simp add: loc_set_def)

lemma loc_set_verified:
  assumes "api_verified_at df i" and "length m = length (rows df)"
    and "col \<noteq> col_api_verified \<or> v = CBool True"
  shows "api_verified_at (loc_set df m col v) i"
  using assms by (auto simp: api_verified_at_def loc_set_def)

lemma loc_set_thrice_verified:
  assumes "api_verified_at df i" and "length m = length (rows df)"
  shows "api_verified_at
           (loc_set (loc_set (loc_set df m col_api_verified (CBool True)) m col_available a)
              m col_note n) i"
  using assms column_names
  by (intro loc_set_verified) (simp_all add: length_rows_loc_set)

lemma sequential_step_verified:
  assumes "api_verified_at (fst s) i"
  shows "api_verified_at (fst (sequential_step py e ac s d)) i"
  using assms
  by (auto simp: sequential_step_def Let_def
           split: prod.splits option.splits sum.splits exn.splits
           intro!: loc_set_thrice_verified dest: eq_mask_length)

lemma foldl_sequential_step_verified:
  "api_verified_at (fst s) i \<Longrightarrow>
     api_verified_at (fst (foldl (sequential_step py e ac) s ds)) i"
  by (induction ds arbitrary: s) (simp_all add: sequential_step_verified)

lemma parallel_update_verified:
  assumes "api_verified_at df i" and "parallel_update py (Inr df) v = Inr df'"
  shows "api_verified_at df' i"
  using assms
  by (auto simp: parallel_update_def and_then_def split: sum.splits prod.splits if_splits
           intro!: loc_set_thrice_verified dest: eq_mask_length)

lemma foldl_parallel_update_Inl: "foldl (parallel_update py) (Inl x) vs = Inl x"
  by (induction vs) (simp_all add: parallel_update_def and_then_def)

lemma foldl_parallel_update_verified:
  "api_verified_at df i \<Longrightarrow> foldl (parallel_update py) (Inr df) vs = Inr df' \<Longrightarrow>
     api_verified_at df' i"
proof (induction vs arbitrary: df)
  case Nil
  then show ?case by simp
next
  case (Cons v vs)
  show ?case
  proof (cases "parallel_update py (Inr df) v")
    case (Inl x)
    with Cons.prems(2) show ?thesis by (simp add: foldl_parallel_update_Inl)
  next
    case (Inr df1)
    then have "api_verified_at df1 i"
      using parallel_update_verified[OF Cons.prems(1)] by simp
    with Cons.IH[of df1] Cons.prems(2) Inr show ?thesis by simp
  qed
qed

lemma concat_rows_verified:
  "api_verified_at df i \<Longrightarrow> api_verified_at (concat_rows df cols new_rows) i"
  by (auto simp: api_verified_at_def concat_rows_def nth_append)

text \<open>
  Claim C2. A row that is marked as verified stays marked, at its place, through every
  stage that updates the table: the sequential verification, the parallel verification
  when it returns a table, the choice between the two, and the merge of the DNS stage.
\<close>

theorem api_verified_monotone:
  assumes "api_verified_at checked_df i"
  shows "api_verified_at (fst (run_sequential_api_verification py e w domains checked_df ac)) i
    \<and> (run_parallel_api_verification py lns domains checked_df ac max_workers = Inr df1
         \<longrightarrow> api_verified_at df1 i)
    \<and> (run_api_verification py e lns w domains checked_df ac use_multi_api max_workers = Inr df2
         \<longrightarrow> api_verified_at df2 i)
    \<and> (run_dns_batch py gethostbyname dns_completed w new_domains checked_df threads
          = Inr (df3, w3)
         \<longrightarrow> api_verified_at df3 i)"
proof -
  have seq: "api_verified_at (fst (run_sequential_api_verification py e w domains checked_df ac)) i"
    using assms by (simp add: run_sequential_api_verification_def foldl_sequential_step_verified)
  have par: "api_verified_at df i"
    if "run_parallel_api_verification py lns domains checked_df ac max_workers = Inr df" for df
    using that assms
    by (auto simp: run_parallel_api_verification_def Let_def raise_def split: if_splits
          dest: foldl_parallel_update_verified)
  have both: "api_verified_at df2 i"
    if "run_api_verification py e lns w domains checked_df ac use_multi_api max_workers = Inr df2"
    using that assms seq par
    by (auto simp: run_api_verification_def split: if_splits)
  have dns: "api_verified_at df3 i"
    if "run_dns_batch py gethostbyname dns_completed w new_domains checked_df threads
          = Inr (df3, w3)"
    using that assms
    by (auto simp: run_dns_batch_def Let_def raise_def concat_rows_verified
             split: if_splits prod.splits)
  show ?thesis
    using seq par both dns by blast
qed

lemma sample_ledger_verified: "api_verified_at sample_ledger 0"
  using column_names
  by (simp add: api_verified_at_def sample_ledger_def ledger_columns_def)

theorem api_verified_monotone_witness:
  "api_verified_at sample_ledger 0
   \<and> api_verified_at
        (fst (run_sequential_api_verification sample_python limited_once sample_world
                [lit ''ab.com''] sample_ledger porkbun_only)) 0"
  using sample_ledger_verified
    api_verified_monotone
      [OF sample_ledger_verified, of sample_python limited_once sample_world "[lit ''ab.com'']"
          porkbun_only]
  by simp

section \<open>Properties of the verification strategies\<close>

subsection \<open>What a check does to the request log and the clock\<close>

lemma requests_sleep: "requests (sleep e w s) = requests w"
  by (simp add: sleep_def)

lemma clock_sleep: "patient e \<Longrightarrow> 0 \<le> s \<Longrightarrow> clock w + s \<le> clock (sleep e w s)"
  by (simp add: sleep_def patient_def)

lemma http_request_effect:
  "patient e \<Longrightarrow> http_request e w p d = (h, w') \<Longrightarrow>
     requests w' = requests w @ [(p, d, clock w)] \<and> clock w \<le> clock w'"
  by (auto simp: http_request_def Let_def patient_def)

lemma porkbun_check_effect:
  assumes "patient e" "porkbun_check py e w d config = (v, w')"
  shows "requests w' = requests w @ [(lit ''porkbun'', d, clock w)] \<and> clock w \<le> clock w'"
proof -
  obtain h w1 where h: "http_request e w (lit ''porkbun'') d = (h, w1)"
    by (metis prod.exhaust)
  then have "w' = w1" using assms(2) by (simp add: porkbun_check_def)
  then show ?thesis using http_request_effect[OF assms(1) h] by simp
qed

lemma dynadot_check_effect:
  assumes "patient e" "dynadot_check py e w d config = (v, w')"
  shows "(requests w' = requests w \<or> requests w' = requests w @ [(lit ''dynadot'', d, clock w)])
     \<and> clock w \<le> clock w'"
proof (cases "truthy (config_get config (lit ''api_key''))")
  case False
  then show ?thesis using assms(2) by (simp add: dynadot_check_def)
next
  case True
  obtain h w1 where h: "http_request e w (lit ''dynadot'') d = (h, w1)"
    by (metis prod.exhaust)
  then have "w' = w1" using assms(2) True by (simp add: dynadot_check_def)
  then show ?thesis using http_request_effect[OF assms(1) h] by simp
qed

lemma get_random_active_provider_effect:
  "get_random_active_provider e w ac = (p, w1) \<Longrightarrow>
     requests w1 = requests w \<and> clock w1 = clock w"
  by (auto simp: get_random_active_provider_def split: if_splits)

lemma api_check_effect:
  assumes "patient e" "api_check py e w d ac provider = (v, w')"
  shows "(requests w' = requests w \<or> (\<exists>q. requests w' = requests w @ [(q, d, clock w)]))
     \<and> clock w \<le> clock w'"
proof -
  obtain p w1 where
    pick: "(if provider = None \<or> provider = Some [] then get_random_active_provider e w ac
            else (provider, w)) = (p, w1)"
    by (metis prod.exhaust)
  have same: "requests w1 = requests w \<and> clock w1 = clock w"
    using pick get_random_active_provider_effect[of e w ac p w1] by (auto split: if_splits)
  consider (pb) q where "porkbun_check py e w1 d (get_provider_config ac q) = (v, w')"
    | (dd) q where "dynadot_check py e w1 d (get_provider_config ac q) = (v, w')"
    | (none) "w' = w1"
    using assms(2) pick by (auto simp: api_check_def Let_def split: if_splits option.splits)
  then show ?thesis
  proof cases
    case pb
    from porkbun_check_effect[OF assms(1) pb] same show ?thesis by auto
  next
    case dd
    from dynadot_check_effect[OF assms(1) dd] same show ?thesis by auto
  next
    case none
    then show ?thesis using same by simp
  qed
qed

lemma porkbun_check_domain: "fst (fst (porkbun_check py e w d config)) = d"
  by (simp add: porkbun_check_def Let_def split: prod.splits http.splits exn.splits sum.splits)

lemma dynadot_check_domain: "fst (fst (dynadot_check py e w d config)) = d"
  by (simp add: dynadot_check_def Let_def split: prod.splits http.splits exn.splits sum.splits)

lemma api_check_domain: "fst (fst (api_check py e w d ac p)) = d"
  by (simp add: api_check_def porkbun_check_domain dynadot_check_domain Let_def
      split: prod.splits option.splits)

lemma respect_rate_limit_waits:
  assumes "patient e" "respect_rate_limit interval e w self = (self', w')"
  shows "last_request_time self + interval \<le> last_request_time self'
     \<and> last_request_time self' = clock w' \<and> requests w' = requests w"
proof (cases "clock w - last_request_time self < interval")
  case True
  then have "w' = sleep e w (interval - (clock w - last_request_time self))"
      "self' = self\<lparr>last_request_time := clock w'\<rparr>"
    using assms(2) by (auto simp: respect_rate_limit_def Let_def)
  moreover have "0 \<le> overslept e (sleeps w)"
    using assms(1) by (simp add: patient_def)
  ultimately show ?thesis by (simp add: sleep_def)
next
  case False
  then have "w' = w" "self' = self\<lparr>last_request_time := clock w\<rparr>"
    using assms(2) by (auto simp: respect_rate_limit_def Let_def)
  then show ?thesis using False by simp
qed

lemma PorkbunAPI_check_domain_waits:
  assumes "patient e" "PorkbunAPI_check_domain py e w self domain = (r, self', w')"
  shows "requests w'
           = requests w @ [(lit ''porkbun'', complete_domain domain, last_request_time self')]
     \<and> last_request_time self + RATE_LIMIT_PORKBUN \<le> last_request_time self'"
proof -
  obtain self1 w1 where r: "respect_rate_limit RATE_LIMIT_PORKBUN e w self = (self1, w1)"
    by (metis prod.exhaust)
  obtain h w2 where h: "http_request e w1 (lit ''porkbun'') (complete_domain domain) = (h, w2)"
    by (metis prod.exhaust)
  have "self' = self1" "w' = w2"
    using assms(2) r h by (simp_all add: PorkbunAPI_check_domain_def Let_def)
  then show ?thesis
    using respect_rate_limit_waits[OF assms(1) r] http_request_effect[OF assms(1) h] by simp
qed

lemma DynadotAPI_check_domain_waits:
  assumes "patient e" "DynadotAPI_check_domain py e w self domain = (r, self', w')"
  shows "requests w'
           = requests w @ [(lit ''dynadot'', complete_domain domain, last_request_time self')]
     \<and> last_request_time self + RATE_LIMIT_DYNADOT \<le> last_request_time self'"
proof -
  obtain self1 w1 where r: "respect_rate_limit RATE_LIMIT_DYNADOT e w self = (self1, w1)"
    by (metis prod.exhaust)
  obtain h w2 where h: "http_request e w1 (lit ''dynadot'') (complete_domain domain) = (h, w2)"
    by (metis prod.exhaust)
  have "self' = self1" "w' = w2"
    using assms(2) r h by (simp_all add: DynadotAPI_check_domain_def Let_def)
  then show ?thesis
    using respect_rate_limit_waits[OF assms(1) r] http_request_effect[OF assms(1) h] by simp
qed

lemma requests_respect_rate_limit: "requests (snd (respect_rate_limit rl e w self)) = requests w"
  by (simp add: respect_rate_limit_def Let_def requests_sleep)

lemma logs_request_PorkbunAPI: "logs_request (PorkbunAPI_check_domain py e)"
  unfolding logs_request_def
proof (intro allI)
  fix w self domain
  obtain self1 w1 where r: "respect_rate_limit RATE_LIMIT_PORKBUN e w self = (self1, w1)"
    by (metis prod.exhaust)
  obtain h w2 where h: "http_request e w1 (lit ''porkbun'') (complete_domain domain) = (h, w2)"
    by (metis prod.exhaust)
  have "requests w1 = requests w"
    using requests_respect_rate_limit[of RATE_LIMIT_PORKBUN e w self] r by simp
  moreover have "requests w2 = requests w1 @ [(lit ''porkbun'', complete_domain domain, clock w1)]"
    using h by (auto simp: http_request_def Let_def)
  moreover have "snd (snd (PorkbunAPI_check_domain py e w self domain)) = w2"
    using r h by (simp add: PorkbunAPI_check_domain_def Let_def)
  ultimately show "\<exists>p t. requests (snd (snd (PorkbunAPI_check_domain py e w self domain)))
                       = requests w @ [(p, complete_domain domain, t)]"
    by simp
qed

lemma logs_request_DynadotAPI: "logs_request (DynadotAPI_check_domain py e)"
  unfolding logs_request_def
proof (intro allI)
  fix w self domain
  obtain self1 w1 where r: "respect_rate_limit RATE_LIMIT_DYNADOT e w self = (self1, w1)"
    by (metis prod.exhaust)
  obtain h w2 where h: "http_request e w1 (lit ''dynadot'') (complete_domain domain) = (h, w2)"
    by (metis prod.exhaust)
  have "requests w1 = requests w"
    using requests_respect_rate_limit[of RATE_LIMIT_DYNADOT e w self] r by simp
  moreover have "requests w2 = requests w1 @ [(lit ''dynadot'', complete_domain domain, clock w1)]"
    using h by (auto simp: http_request_def Let_def)
  moreover have "snd (snd (DynadotAPI_check_domain py e w self domain)) = w2"
    using r h by (simp add: DynadotAPI_check_domain_def Let_def)
  ultimately show "\<exists>p t. requests (snd (snd (DynadotAPI_check_domain py e w self domain)))
                       = requests w @ [(p, complete_domain domain, t)]"
    by simp
qed

subsection \<open>Sample runs\<close>

lemma provider_names:
  "lower (lit ''porkbun'') = lit ''porkbun''" "lit ''porkbun'' \<noteq> lit ''dynadot''"
  "lit ''porkbun'' \<noteq> []"
  by (simp_all add: lower_def lower_cp_def lit_def)

lemma rate_limited_body:
  "sublist rate_limit_marker (lit ''1 out of 1 checks within 10 seconds used.'')"
  unfolding rate_limit_marker_def lit_def by code_simp

lemma porkbun_config:
  "get_provider_config two_providers (lit ''porkbun'') = sample_config"
  "get_provider_config porkbun_only (lit ''porkbun'') = sample_config"
  "sample_config \<noteq> []"
  by (simp_all add: get_provider_config_def two_providers_def porkbun_only_def provider_names
        sample_config_def)

lemma api_check_rate_limited:
  "get_provider_config ac (lit ''porkbun'') = sample_config \<Longrightarrow>
   api_check py (constant_env http_rate_limited) w d ac (Some (lit ''porkbun''))
     = ((d, None, lit ''Porkbun'' @ zh_rate_limit),
        w\<lparr>requests := requests w @ [(lit ''porkbun'', d, clock w)], clock := clock w + 0\<rparr>)"
  using rate_limited_body
  by (simp add: api_check_def provider_names porkbun_config
       porkbun_check_def http_request_def constant_env_def http_rate_limited_def Let_def)

lemma api_check_500:
  "get_provider_config ac (lit ''porkbun'') = sample_config \<Longrightarrow>
   api_check py (constant_env http_500) w d ac (Some (lit ''porkbun''))
     = ((d, Some False, lit ''Porkbun HTTP'' @ zh_error @ lit '': '' @ str_int 500),
        w\<lparr>requests := requests w @ [(lit ''porkbun'', d, clock w)], clock := clock w + 0\<rparr>)"
  by (simp add: api_check_def provider_names porkbun_config
       porkbun_check_def http_request_def constant_env_def http_500_def Let_def)

lemma foldl_process_api_step_500:
  assumes "get_provider_config ac (lit ''porkbun'') = sample_config"
  shows "fst (foldl (process_api_step py (constant_env http_500) ac (lit ''porkbun''))
                (results, w) ds)
       = results
         @ map (\<lambda>d. (d, Some False, lit ''Porkbun HTTP'' @ zh_error @ lit '': '' @ str_int 500))
             ds
     \<and> map (fst \<circ> snd)
         (requests (snd (foldl (process_api_step py (constant_env http_500) ac (lit ''porkbun''))
                           (results, w) ds)))
       = map (fst \<circ> snd) (requests w) @ ds"
proof (induction ds arbitrary: results w)
  case Nil
  show ?case by simp
next
  case (Cons d ds)
  show ?case
    using Cons.IH
    by (simp add: process_api_step_def api_check_500[OF assms] sleep_def)
qed

lemma http_500_note_is_error:
  "is_error_note (lit ''Porkbun HTTP'' @ zh_error @ lit '': '' @ str_int 500)"
  by (simp add: is_error_note_def)

lemma first_check_limited_once:
  assumes "requests w = []"
  shows "fst (api_check py limited_once w d porkbun_only (Some (lit ''porkbun'')))
           = (d, None, lit ''Porkbun'' @ zh_rate_limit)"
    and "requests (snd (api_check py limited_once w d porkbun_only (Some (lit ''porkbun''))))
           = [(lit ''porkbun'', d, clock w)]"
  using rate_limited_body assms
  by (simp_all add: api_check_def provider_names porkbun_config
       porkbun_check_def http_request_def limited_once_def http_rate_limited_def Let_def)

lemma second_check_limited_once:
  assumes "requests w = [r]"
  shows "fst (api_check py limited_once w d porkbun_only None)
           = (d, Some False, lit ''Porkbun HTTP'' @ zh_error @ lit '': '' @ str_int 500)"
    and "requests (snd (api_check py limited_once w d porkbun_only None))
           = requests w @ [(lit ''porkbun'', d, clock w)]"
  using assms
  by (simp_all add: api_check_def provider_names porkbun_config get_random_active_provider_def
       porkbun_check_def http_request_def limited_once_def http_500_def Let_def
       porkbun_only_def get_provider_config_def sample_config_def)

text \<open>
  The sequential strategy on a rate-limit rejection: the rejected check is not recorded,
  the check is made a second time, and what the second check returns is recorded.
\<close>

lemma sequential_retries_once:
  "map (fst \<circ> snd)
      (requests (snd (run_sequential_api_verification sample_python limited_once sample_world
                        [lit ''ab.com''] sample_ledger porkbun_only)))
     = [lit ''ab.com'', lit ''ab.com'']
   \<and> values_tolist
        (fst (run_sequential_api_verification sample_python limited_once sample_world
                [lit ''ab.com''] sample_ledger porkbun_only))
     = [[CStr (lit ''aa.com''), CBool True, CBool True, CBool True,
         CStr (lit ''Porkbun'' @ zh_price @ lit '': 9.73'')],
        [CStr (lit ''ab.com''), CBool True, CBool True, CBool False,
         CStr (lit ''Porkbun HTTP'' @ zh_error @ lit '': '' @ str_int 500)]]"
proof -
  let ?d = "lit ''ab.com''" and ?p = "lit ''porkbun''"
  let ?e = limited_once
  define w1 where "w1 = sample_world\<lparr>draws := Suc 0\<rparr>"
  have pick: "get_random_active_provider ?e sample_world porkbun_only = (Some ?p, w1)"
    by (simp add: get_random_active_provider_def porkbun_only_def sample_world_def w1_def)
  have w1: "requests w1 = []"
    by (simp add: w1_def sample_world_def)
  obtain w2 where c1: "api_check sample_python ?e w1 ?d porkbun_only (Some ?p)
                         = ((?d, None, lit ''Porkbun'' @ zh_rate_limit), w2)"
      and w2: "requests w2 = [(?p, ?d, clock w1)]"
    using first_check_limited_once[OF w1, of sample_python ?d]
    by (cases "api_check sample_python ?e w1 ?d porkbun_only (Some ?p)") simp
  define w2' where "w2' = sleep ?e w2 (rate_limit_of ?p)"
  have w2': "requests w2' = [(?p, ?d, clock w1)]"
    using w2 by (simp add: w2'_def sleep_def)
  obtain w3 where c2: "api_check sample_python ?e w2' ?d porkbun_only None
        = ((?d, Some False, lit ''Porkbun HTTP'' @ zh_error @ lit '': '' @ str_int 500), w3)"
      and w3: "map (fst \<circ> snd) (requests w3) = [?d, ?d]"
    using second_check_limited_once[OF w2', of sample_python ?d] w2'
    by (cases "api_check sample_python ?e w2' ?d porkbun_only None") simp
  have marker: "sublist zh_rate_limit (lit ''Porkbun'' @ zh_rate_limit)" by simp
  have names: "lit ''aa.com'' \<noteq> lit ''ab.com''"
    by (simp add: lit_def)
  have step: "sequential_step sample_python ?e porkbun_only (sample_ledger, sample_world) ?d
     = (loc_set (loc_set (loc_set sample_ledger [False, True] col_api_verified (CBool True))
           [False, True] col_available (CBool False)) [False, True] col_note
           (CStr (lit ''Porkbun HTTP'' @ zh_error @ lit '': '' @ str_int 500)),
        sleep ?e w3 (rate_limit_of ?p))"
    using marker names column_names
    by (simp add: sequential_step_def pick c1 c2[unfolded w2'_def] Let_def eq_mask_def
         sample_ledger_def ledger_columns_def dns_row_def)
  have run: "run_sequential_api_verification sample_python ?e sample_world [?d] sample_ledger
               porkbun_only
     = (loc_set (loc_set (loc_set sample_ledger [False, True] col_api_verified (CBool True))
           [False, True] col_available (CBool False)) [False, True] col_note
           (CStr (lit ''Porkbun HTTP'' @ zh_error @ lit '': '' @ str_int 500)),
        sleep ?e w3 (rate_limit_of ?p))"
    by (simp only: run_sequential_api_verification_def foldl.simps step)
  show ?thesis
    unfolding run
    using column_names w3
    by (simp add: sleep_def loc_set_def
          sample_ledger_def ledger_columns_def dns_row_def values_tolist_def)
qed

text \<open>
  Claim C5: the code at the failing input. In the parallel strategy the lane of Porkbun
  verifies \<^verbatim>\<open>ab.com\<close> and the provider answers with the rate-limit rejection. The lane
  issues that one request and no other, its result carries the unknown availability, and
  the update of the table records it: the row of \<^verbatim>\<open>ab.com\<close> is marked as verified, with
  an empty \<^verbatim>\<open>available\<close> cell and the rate-limit note.
\<close>

theorem parallel_lane_records_rate_limit:
  "fst (process_api_batch sample_python (constant_env http_rate_limited) sample_world
          [lit ''ab.com''] (lit ''porkbun'') two_providers)
     = [(lit ''ab.com'', None, lit ''Porkbun'' @ zh_rate_limit)]
   \<and> map (fst \<circ> snd)
        (requests (snd (process_api_batch sample_python (constant_env http_rate_limited)
                          sample_world [lit ''ab.com''] (lit ''porkbun'') two_providers)))
     = [lit ''ab.com'']
   \<and> (\<exists>df. run_parallel_api_verification sample_python sample_lanes [lit ''ab.com'']
               sample_ledger two_providers 2 = Inr df
           \<and> values_tolist df
               = [[CStr (lit ''aa.com''), CBool True, CBool True, CBool True,
                   CStr (lit ''Porkbun'' @ zh_price @ lit '': 9.73'')],
                  [CStr (lit ''ab.com''), CBool True, CBool True, CNaN,
                   CStr (lit ''Porkbun'' @ zh_rate_limit)]])"
proof -
  have lane: "process_api_batch sample_python (constant_env http_rate_limited) sample_world
          [lit ''ab.com''] (lit ''porkbun'') two_providers
     = ([(lit ''ab.com'', None, lit ''Porkbun'' @ zh_rate_limit)],
        sleep (constant_env http_rate_limited)
          (sample_world\<lparr>requests := [(lit ''porkbun'', lit ''ab.com'', 0)], clock := 0\<rparr>)
          (rate_limit_of (lit ''porkbun'')))"
    by (simp add: process_api_batch_def process_api_step_def
          api_check_rate_limited[OF porkbun_config(1)] sample_world_def)
  have tasks:
    "group_by_provider (assign_providers (active_providers two_providers) [lit ''ab.com''])
       = [(lit ''porkbun'', [lit ''ab.com''])]"
    by (simp add: group_by_provider_def assign_providers_def two_providers_def)
  have names: "lit ''aa.com'' \<noteq> lit ''ab.com''"
    by (simp add: lit_def)
  have run: "run_parallel_api_verification sample_python sample_lanes [lit ''ab.com'']
               sample_ledger two_providers 2
      = parallel_update sample_python (Inr sample_ledger)
          (lit ''ab.com'', None, lit ''Porkbun'' @ zh_rate_limit)"
    using lane
    by (simp add: run_parallel_api_verification_def Let_def tasks sample_lanes_def)
       (simp add: two_providers_def)
  show ?thesis
    unfolding lane run
    using column_names names
    by (simp add: sleep_def parallel_update_def and_then_def eq_mask_def
         sample_ledger_def ledger_columns_def dns_row_def loc_set_def cell_of_availability_def
         values_tolist_def)
qed

subsection \<open>The circuit breaker\<close>

lemma trailing_errors_snoc:
  "trailing_errors (results @ [(d, a, n)])
     = (if is_error_note n then Suc (trailing_errors results) else 0)"
  by (simp add: trailing_errors_def)

text \<open>
  The loop of \<^verbatim>\<open>batch_check\<close>, started with a count that is the number of errors at the
  end of its results and with no earlier point at which \<open>max_errors\<close> errors had
  accumulated: the domains it handles are a prefix of its queue, it stops early only with
  \<open>max_errors\<close> errors at the end of its results, and no earlier point of the run has
  that many.
\<close>

lemma batch_loop_breaker:
  assumes "1 \<le> max_errors"
    and "consecutive_errors = int (trailing_errors results)"
    and "\<forall>k \<le> length results. int (trailing_errors (take k results)) < max_errors"
    and "batch_loop check retry e max_errors domains results consecutive_errors self w
           = (res, self', w')"
  shows "(\<exists>k \<le> length domains. map fst res = map fst results @ take k domains)
    \<and> (length res < length results + length domains
         \<longrightarrow> max_errors \<le> int (trailing_errors res))
    \<and> (\<forall>k < length res. int (trailing_errors (take k res)) < max_errors)"
  using assms(2-)
proof (induction domains arbitrary: results consecutive_errors self w)
  case Nil
  then show ?case by auto
next
  case (Cons domain rest)
  obtain available remark self1 w1 where
    chk: "check_with_retry check retry e w self domain = ((available, remark), self1, w1)"
    by (metis prod.exhaust)
  let ?results = "results @ [(domain, available, remark)]"
  have inv_take: "\<forall>k \<le> length results. int (trailing_errors (take k ?results)) < max_errors"
    using Cons.prems(2) by simp
  have extend: "\<exists>k \<le> length (domain # rest). map fst res = map fst results @ take k (domain # rest)"
    if "k \<le> length rest" "map fst res = map fst ?results @ take k rest" for k
  proof -
    have "map fst res = map fst results @ take (Suc k) (domain # rest)"
      "Suc k \<le> length (domain # rest)"
      using that by simp_all
    then show ?thesis by blast
  qed
  have inv_step: "\<forall>k \<le> length ?results. int (trailing_errors (take k ?results)) < max_errors"
    if "int (trailing_errors ?results) < max_errors"
  proof (intro allI impI)
    fix k assume "k \<le> length ?results"
    then consider "k \<le> length results" | "k = length ?results" by fastforce
    then show "int (trailing_errors (take k ?results)) < max_errors"
    proof cases
      case 1 then show ?thesis using inv_take by blast
    next
      case 2 then show ?thesis using that by simp
    qed
  qed
  show ?case
  proof (cases "is_error_note remark")
    case err: True
    have tr: "trailing_errors ?results = Suc (trailing_errors results)"
      using err by (simp add: trailing_errors_snoc)
    show ?thesis
    proof (cases "consecutive_errors + 1 \<ge> max_errors")
      case True
      then have res: "res = ?results"
        using Cons.prems(3) chk err by simp
      have a: "\<exists>k \<le> length (domain # rest).
                 map fst res = map fst results @ take k (domain # rest)"
        using extend[of 0] res by simp
      have b: "max_errors \<le> int (trailing_errors res)"
        using True Cons.prems(1) res tr by simp
      have c: "\<forall>k < length res. int (trailing_errors (take k res)) < max_errors"
        using inv_take res by (simp add: less_Suc_eq_le)
      from a b c show ?thesis by blast
    next
      case False
      then have run: "batch_loop check retry e max_errors rest ?results (consecutive_errors + 1)
                        self1 w1 = (res, self', w')"
        using Cons.prems(3) chk err by simp
      have ce: "consecutive_errors + 1 = int (trailing_errors ?results)"
        using Cons.prems(1) tr by simp
      have inv: "\<forall>k \<le> length ?results. int (trailing_errors (take k ?results)) < max_errors"
        using inv_step False ce by simp
      from Cons.IH[OF ce inv run]
      obtain k where k: "k \<le> length rest" "map fst res = map fst ?results @ take k rest"
        and rest: "length res < length ?results + length rest
                     \<longrightarrow> max_errors \<le> int (trailing_errors res)"
          "\<forall>k < length res. int (trailing_errors (take k res)) < max_errors"
        by blast
      from extend[OF k] rest show ?thesis by simp
    qed
  next
    case ok: False
    have tr: "trailing_errors ?results = 0"
      using ok by (simp add: trailing_errors_snoc)
    have run: "batch_loop check retry e max_errors rest ?results 0 self1 w1 = (res, self', w')"
      using Cons.prems(3) chk ok by simp
    have ce: "0 = int (trailing_errors ?results)"
      using tr by simp
    have inv: "\<forall>k \<le> length ?results. int (trailing_errors (take k ?results)) < max_errors"
      using inv_step assms(1) tr by simp
    from Cons.IH[OF ce inv run]
    obtain k where k: "k \<le> length rest" "map fst res = map fst ?results @ take k rest"
      and rest: "length res < length ?results + length rest
                   \<longrightarrow> max_errors \<le> int (trailing_errors res)"
        "\<forall>k < length res. int (trailing_errors (take k res)) < max_errors"
      by blast
    from extend[OF k] rest show ?thesis by simp
  qed
qed

lemma requests_check_with_retry:
  assumes "logs_request check"
  shows "\<exists>new. requests (snd (snd (check_with_retry check retry e w self domain)))
                 = requests w @ new
            \<and> (fst \<circ> snd) ` set new \<subseteq> {complete_domain domain}"
proof -
  obtain a n self1 w1 where c1: "check w self domain = ((a, n), self1, w1)"
    by (metis prod.exhaust)
  obtain p t where r1: "requests w1 = requests w @ [(p, complete_domain domain, t)]"
    using assms c1 unfolding logs_request_def by (metis snd_conv)
  obtain p' t' where
    r2: "requests (snd (snd (check (sleep e w1 RATE_LIMIT_PORKBUN) self1 domain)))
           = requests w1 @ [(p', complete_domain domain, t')]"
    using assms unfolding logs_request_def by (metis requests_sleep)
  show ?thesis
  proof (cases "retry \<and> a = None \<and> sublist zh_rate_limit n")
    case True
    then have "requests (snd (snd (check_with_retry check retry e w self domain)))
       = requests w @ [(p, complete_domain domain, t), (p', complete_domain domain, t')]"
      using c1 r1 r2 by (simp add: check_with_retry_def)
    then show ?thesis by auto
  next
    case False
    then have "requests (snd (snd (check_with_retry check retry e w self domain)))
       = requests w @ [(p, complete_domain domain, t)]"
      using c1 r1 by (auto simp add: check_with_retry_def)
    then show ?thesis by auto
  qed
qed

lemma batch_loop_extends:
  "batch_loop check retry e max_errors domains results ce self w = (res, self', w')
     \<Longrightarrow> \<exists>ext. res = results @ ext"
proof (induction domains arbitrary: results ce self w)
  case Nil
  then show ?case by simp
next
  case (Cons domain rest)
  obtain a n self1 w1 where
    chk: "check_with_retry check retry e w self domain = ((a, n), self1, w1)"
    by (metis prod.exhaust)
  consider (stop) "res = results @ [(domain, a, n)]"
    | (go) c where "batch_loop check retry e max_errors rest (results @ [(domain, a, n)]) c
                      self1 w1 = (res, self', w')"
    using Cons.prems chk by (auto simp: Let_def split: if_splits)
  then show ?case
  proof cases
    case stop then show ?thesis by blast
  next
    case go
    from Cons.IH[OF this] show ?thesis by auto
  qed
qed

lemma batch_loop_requests:
  assumes "logs_request check"
  shows "batch_loop check retry e max_errors domains results ce self w = (res, self', w')
     \<Longrightarrow> \<exists>new. requests w' = requests w @ new
           \<and> (fst \<circ> snd) ` set new \<subseteq> complete_domain ` fst ` set res"
proof (induction domains arbitrary: results ce self w)
  case Nil
  then show ?case by simp
next
  case (Cons domain rest)
  obtain a n self1 w1 where
    chk: "check_with_retry check retry e w self domain = ((a, n), self1, w1)"
    by (metis prod.exhaust)
  obtain new1 where new1: "requests w1 = requests w @ new1"
      "(fst \<circ> snd) ` set new1 \<subseteq> {complete_domain domain}"
    using requests_check_with_retry[OF assms, of retry e w self domain] chk by auto
  consider (stop) "res = results @ [(domain, a, n)]" "w' = w1"
    | (go) c where "batch_loop check retry e max_errors rest (results @ [(domain, a, n)]) c
                      self1 w1 = (res, self', w')"
    using Cons.prems chk by (auto simp: Let_def split: if_splits)
  then show ?case
  proof cases
    case stop
    then show ?thesis using new1 by auto
  next
    case go
    from Cons.IH[OF go] obtain new2 where new2: "requests w' = requests w1 @ new2"
      "(fst \<circ> snd) ` set new2 \<subseteq> complete_domain ` fst ` set res"
      by blast
    obtain ext where "res = (results @ [(domain, a, n)]) @ ext"
      using batch_loop_extends[OF go] by blast
    then have "domain \<in> fst ` set res" by force
    then have "(fst \<circ> snd) ` set (new1 @ new2) \<subseteq> complete_domain ` fst ` set res"
      using new1(2) new2(2) by auto
    moreover have "requests w' = requests w @ (new1 @ new2)"
      using new1(1) new2(1) by simp
    ultimately show ?thesis by blast
  qed
qed

lemma foldl_process_api_step_domains:
  "map fst (fst (foldl (process_api_step py e ac provider) (results, w) ds))
     = map fst results @ ds"
proof (induction ds arbitrary: results w)
  case Nil
  show ?case by simp
next
  case (Cons d ds)
  obtain d' a n w1 where chk: "api_check py e w d ac (Some provider) = ((d', a, n), w1)"
    by (metis prod.exhaust)
  then have "d' = d"
    using api_check_domain[of py e w d ac "Some provider"] by simp
  then obtain w2 where
    step: "process_api_step py e ac provider (results, w) d = (results @ [(d, a, n)], w2)"
    using chk by (simp add: process_api_step_def Let_def)
  show ?case
    using Cons.IH[of "results @ [(d, a, n)]" w2] step by simp
qed

text \<open>
  Claim C1, as the code has it. The abort after consecutive errors is in the loop of
  \<^verbatim>\<open>batch_check\<close> of the two provider clients. For \<open>max_errors\<close> of at least one, the
  domains that a batch handles are the first ones of its queue, in order; the batch leaves
  domains unhandled only when its last \<open>max_errors\<close> results are errors; at no point
  before its end had \<open>max_errors\<close> errors in a row accumulated, so it stops at the
  first such point; every request it issues is for a domain it has a result for, and
  every result is in the dict it returns. A lane of the parallel strategy,
  \<^verbatim>\<open>process_api_batch\<close>, has no such abort: it returns one result for every domain of
  its queue, in order, whatever the results are.
\<close>

theorem batch_check_circuit_breaker:
  assumes "1 \<le> max_errors"
    and "(check, retry) = (PorkbunAPI_check_domain py e, True)
         \<or> (check, retry) = (DynadotAPI_check_domain py e, False)"
    and "batch_loop check retry e max_errors domains [] 0 self w = (res, self', w')"
  shows "map fst res = take (length res) domains
    \<and> (length res < length domains \<longrightarrow> max_errors \<le> int (trailing_errors res))
    \<and> (\<forall>k < length res. int (trailing_errors (take k res)) < max_errors)
    \<and> (\<exists>new. requests w' = requests w @ new
              \<and> (fst \<circ> snd) ` set new \<subseteq> complete_domain ` fst ` set res)
    \<and> dom (as_dict res) = fst ` set res
    \<and> map fst (fst (process_api_batch py e w domains provider ac)) = domains"
proof -
  have start: "0 = int (trailing_errors [])"
      "\<forall>k \<le> length ([]::assignment list). int (trailing_errors (take k [])) < max_errors"
    using assms(1) by (simp_all add: trailing_errors_def)
  have "(\<exists>k \<le> length domains. map fst res = map fst [] @ take k domains)
    \<and> (length res < length ([]::assignment list) + length domains
         \<longrightarrow> max_errors \<le> int (trailing_errors res))
    \<and> (\<forall>k < length res. int (trailing_errors (take k res)) < max_errors)"
    using batch_loop_breaker[OF assms(1) start assms(3)] by simp
  then obtain k where k: "k \<le> length domains" "map fst res = take k domains"
    and stop1: "length res < length domains \<longrightarrow> max_errors \<le> int (trailing_errors res)"
    and stop2: "\<forall>k < length res. int (trailing_errors (take k res)) < max_errors"
    by auto
  have "length (map fst res) = length (take k domains)"
    using k(2) by simp
  then have "length res = k"
    using k(1) by simp
  then have prefix: "map fst res = take (length res) domains"
    using k(2) by simp
  have "check = PorkbunAPI_check_domain py e \<or> check = DynadotAPI_check_domain py e"
    using assms(2) by blast
  then have "logs_request check"
    using logs_request_PorkbunAPI[of py e] logs_request_DynadotAPI[of py e] by (elim disjE) simp_all
  then have asked: "\<exists>new. requests w' = requests w @ new
              \<and> (fst \<circ> snd) ` set new \<subseteq> complete_domain ` fst ` set res"
    using assms(3) by (rule batch_loop_requests)
  have kept: "dom (as_dict res) = fst ` set res"
    by (simp add: as_dict_def dom_map_of_conv_image_fst)
  have lane: "map fst (fst (process_api_batch py e w domains provider ac)) = domains"
    by (simp add: process_api_batch_def foldl_process_api_step_domains)
  show ?thesis
    by (intro conjI prefix stop1 stop2 asked kept lane)
qed

theorem batch_check_circuit_breaker_witness:
  "(1::int) \<le> 5
   \<and> map fst (fst (batch_loop (DynadotAPI_check_domain sample_python (constant_env http_500))
                      False (constant_env http_500) 5 six_domains [] 0 sample_client
                      sample_world))
     = take (length (fst (batch_loop (DynadotAPI_check_domain sample_python
                                        (constant_env http_500))
                            False (constant_env http_500) 5 six_domains [] 0 sample_client
                            sample_world)))
         six_domains
   \<and> map fst (fst (process_api_batch sample_python (constant_env http_500) sample_world
                      six_domains (lit ''porkbun'') porkbun_only))
     = six_domains"
proof -
  let ?e = "constant_env http_500"
  let ?check = "DynadotAPI_check_domain sample_python ?e"
  let ?run = "batch_loop ?check False ?e 5 six_domains [] 0 sample_client sample_world"
  have one: "(1::int) \<le> 5"
    by simp
  have which: "(?check, False) = (PorkbunAPI_check_domain sample_python ?e, True)
               \<or> (?check, False) = (?check, False)"
    by simp
  have run: "?run = (fst ?run, fst (snd ?run), snd (snd ?run))"
    by simp
  have "map fst (fst ?run) = take (length (fst ?run)) six_domains
     \<and> map fst (fst (process_api_batch sample_python ?e sample_world six_domains
                        (lit ''porkbun'') porkbun_only))
       = six_domains"
    using batch_check_circuit_breaker
            [of 5 ?check False sample_python ?e six_domains sample_client sample_world
                "fst ?run" "fst (snd ?run)" "snd (snd ?run)" "lit ''porkbun''" porkbun_only,
             OF one which run]
    by blast
  with one show ?thesis
    by blast
qed

text \<open>
  The claim as the specification states it, for a lane of the parallel strategy, fails:
  a lane of Porkbun whose six requests are all answered with status 500 has six error
  results in a row and has issued a request for each of the six domains.
\<close>

theorem lane_has_no_circuit_breaker:
  "map (is_error_note \<circ> snd \<circ> snd)
      (fst (process_api_batch sample_python (constant_env http_500) sample_world six_domains
              (lit ''porkbun'') porkbun_only))
     = [True, True, True, True, True, True]
   \<and> map (fst \<circ> snd)
      (requests (snd (process_api_batch sample_python (constant_env http_500) sample_world
                        six_domains (lit ''porkbun'') porkbun_only)))
     = six_domains"
  using foldl_process_api_step_500
          [OF porkbun_config(2), of sample_python "[]" sample_world six_domains]
    http_500_note_is_error
  by (simp add: process_api_batch_def six_domains_def sample_world_def)

subsection \<open>Spacing of the requests\<close>

lemma spaced_snoc:
  "spaced d (ts @ [u]) \<longleftrightarrow> spaced d ts \<and> (ts \<noteq> [] \<longrightarrow> last ts + d \<le> u)"
  by (induction d ts rule: spaced.induct) auto

lemma spaced_span:
  "spaced d ts \<Longrightarrow> ts \<noteq> [] \<Longrightarrow> hd ts + real (length ts - 1) * d \<le> last ts"
proof (induction d ts rule: spaced.induct)
  case (3 d t u ts)
  then have "u + real (length ts) * d \<le> last (u # ts)" by simp
  moreover have "t + d \<le> u" using 3 by simp
  ultimately show ?case by (simp add: algebra_simps)
qed simp_all

lemma spaced_after:
  assumes "n \<le> length rs" and "spaced d (issue_times (drop n rs))"
    and "n < length rs \<longrightarrow> last (issue_times rs) + d \<le> t"
  shows "spaced d (issue_times (drop n (rs @ [(p, domain, t)])))"
proof -
  have "spaced d (issue_times (drop n rs) @ [t])"
  proof (cases "n < length rs")
    case True
    then have "rs \<noteq> []" by auto
    with True have "last (issue_times (drop n rs)) = last (issue_times rs)"
      by (simp add: issue_times_def last_map)
    then show ?thesis
      using assms(2,3) True by (auto simp: spaced_snoc issue_times_def)
  next
    case False
    then show ?thesis using assms(1) by (simp add: issue_times_def)
  qed
  then show ?thesis
    using assms(1) by (simp add: issue_times_def)
qed

lemma rate_limit_of_nonneg: "0 \<le> rate_limit_of provider"
  by (simp add: rate_limit_of_def RATE_LIMIT_DYNADOT_def RATE_LIMIT_PORKBUN_def)

lemma process_api_step_inv:
  assumes "patient e" "lane_inv (rate_limit_of provider) n w"
  shows "lane_inv (rate_limit_of provider) n
           (snd (process_api_step py e ac provider (results, w) d))"
proof -
  let ?d = "rate_limit_of provider"
  obtain dm a nt w1 where chk: "api_check py e w d ac (Some provider) = ((dm, a, nt), w1)"
    by (metis prod.exhaust)
  define w2 where
    "w2 = (if a = Some True
           then save_available_domain w1 dm ((lit ''API'' @ zh_confirmed @ lit '' - '') @ nt)
           else w1)"
  have w2: "requests w2 = requests w1" "clock w2 = clock w1"
    by (simp_all add: w2_def save_available_domain_def)
  have step: "snd (process_api_step py e ac provider (results, w) d) = sleep e w2 ?d"
    using chk by (simp add: process_api_step_def w2_def)
  have clk: "clock w2 + ?d \<le> clock (sleep e w2 ?d)"
    using clock_sleep[OF assms(1) rate_limit_of_nonneg] .
  have n: "n \<le> length (requests w)" and sp: "spaced ?d (issue_times (drop n (requests w)))"
    and late: "n < length (requests w) \<longrightarrow> last (issue_times (requests w)) + ?d \<le> clock w"
    using assms(2) by (simp_all add: lane_inv_def)
  from api_check_effect[OF assms(1) chk]
  consider (quiet) "requests w1 = requests w" "clock w \<le> clock w1"
    | (asked) q where "requests w1 = requests w @ [(q, d, clock w)]" "clock w \<le> clock w1"
    by blast
  then have "lane_inv ?d n (sleep e w2 ?d)"
  proof cases
    case quiet
    then show ?thesis
      using n sp late clk w2 rate_limit_of_nonneg[of provider]
      by (auto simp: lane_inv_def requests_sleep)
  next
    case asked
    have "spaced ?d (issue_times (drop n (requests w1)))"
      using spaced_after[OF n sp late] asked(1) by simp
    moreover have "last (issue_times (requests w1)) + ?d \<le> clock (sleep e w2 ?d)"
      using asked clk w2 by (simp add: issue_times_def)
    ultimately show ?thesis
      using n asked(1) w2 by (simp add: lane_inv_def requests_sleep)
  qed
  then show ?thesis using step by simp
qed

lemma foldl_process_api_step_inv:
  "patient e \<Longrightarrow> lane_inv (rate_limit_of provider) n w \<Longrightarrow>
     lane_inv (rate_limit_of provider) n
       (snd (foldl (process_api_step py e ac provider) (results, w) ds))"
proof (induction ds arbitrary: results w)
  case Nil
  then show ?case by simp
next
  case (Cons d ds)
  obtain results1 w1 where
    s: "process_api_step py e ac provider (results, w) d = (results1, w1)"
    by (metis prod.exhaust)
  then have "lane_inv (rate_limit_of provider) n w1"
    using process_api_step_inv[OF Cons.prems, of py ac results d] by simp
  from Cons.IH[OF Cons.prems(1) this, of results1] s show ?case by simp
qed

lemma lane_spaced:
  assumes "patient e"
  shows "spaced (rate_limit_of provider)
           (issue_times (drop (length (requests w))
              (requests (snd (process_api_batch py e w domains provider ac)))))"
proof -
  have "lane_inv (rate_limit_of provider) (length (requests w)) w"
    by (simp add: lane_inv_def issue_times_def)
  from foldl_process_api_step_inv[OF assms this, of py ac "[]" domains]
  show ?thesis by (simp add: lane_inv_def process_api_batch_def)
qed

lemma stamps_PorkbunAPI:
  assumes "patient e"
  shows "stamps RATE_LIMIT_PORKBUN (PorkbunAPI_check_domain py e)"
  unfolding stamps_def
  using PorkbunAPI_check_domain_waits[OF assms]
  by (metis prod.collapse)

lemma check_inv:
  assumes "stamps d check" "client_inv d n self w" "check w self domain = (r, self', w')"
  shows "client_inv d n self' w'"
proof -
  obtain p where
    req: "requests w' = requests w @ [(p, complete_domain domain, last_request_time self')]"
    and wait: "last_request_time self + d \<le> last_request_time self'"
    using assms(1,3) unfolding stamps_def by (metis fst_conv snd_conv)
  have n: "n \<le> length (requests w)" and sp: "spaced d (issue_times (drop n (requests w)))"
    and stamp: "n < length (requests w)
                  \<longrightarrow> last (issue_times (requests w)) + d \<le> last_request_time self'"
    using assms(2) wait by (simp_all add: client_inv_def)
  have "spaced d (issue_times (drop n (requests w')))"
    using spaced_after[OF n sp stamp] req by simp
  then show ?thesis
    using n req by (simp add: client_inv_def issue_times_def)
qed

lemma check_with_retry_inv:
  assumes "stamps d check" "client_inv d n self w"
    "check_with_retry check retry e w self domain = (r, self', w')"
  shows "client_inv d n self' w'"
proof -
  obtain a nt self1 w1 where c1: "check w self domain = ((a, nt), self1, w1)"
    by (metis prod.exhaust)
  have inv1: "client_inv d n self1 w1"
    using check_inv[OF assms(1,2) c1] .
  show ?thesis
  proof (cases "retry \<and> a = None \<and> sublist zh_rate_limit nt")
    case True
    then have c2: "check (sleep e w1 RATE_LIMIT_PORKBUN) self1 domain = (r, self', w')"
      using assms(3) c1 by (simp add: check_with_retry_def)
    have "client_inv d n self1 (sleep e w1 RATE_LIMIT_PORKBUN)"
      using inv1 by (simp add: client_inv_def requests_sleep)
    from check_inv[OF assms(1) this c2] show ?thesis .
  next
    case False
    then have "self' = self1" "w' = w1"
      using assms(3) c1 by (auto simp: check_with_retry_def)
    then show ?thesis using inv1 by simp
  qed
qed

lemma batch_loop_inv:
  assumes "stamps d check"
  shows "client_inv d n self w \<Longrightarrow>
     batch_loop check retry e max_errors domains results ce self w = (res, self', w') \<Longrightarrow>
     client_inv d n self' w'"
proof (induction domains arbitrary: results ce self w)
  case Nil
  then show ?case by simp
next
  case (Cons domain rest)
  obtain a nt self1 w1 where
    chk: "check_with_retry check retry e w self domain = ((a, nt), self1, w1)"
    by (metis prod.exhaust)
  have inv1: "client_inv d n self1 w1"
    using check_with_retry_inv[OF assms Cons.prems(1) chk] .
  consider (stop) "self' = self1" "w' = w1"
    | (go) c where "batch_loop check retry e max_errors rest (results @ [(domain, a, nt)]) c
                      self1 w1 = (res, self', w')"
    using Cons.prems(2) chk by (auto simp: Let_def split: if_splits)
  then show ?case
  proof cases
    case stop
    then show ?thesis using inv1 by simp
  next
    case go
    from Cons.IH[OF inv1 go] show ?thesis .
  qed
qed

lemma batch_spaced:
  assumes "stamps d check"
    and "batch_loop check retry e max_errors domains [] 0 self w = (res, self', w')"
  shows "spaced d (issue_times (drop (length (requests w)) (requests w')))"
proof -
  have "client_inv d (length (requests w)) self w"
    by (simp add: client_inv_def issue_times_def)
  from batch_loop_inv[OF assms(1) this assms(2)] show ?thesis
    by (simp add: client_inv_def)
qed

text \<open>
  Claim C9, with the clock of the model: a request takes no less than no time and a sleep
  lasts no less than asked (\<^const>\<open>patient\<close>). The requests that a lane of the parallel
  strategy issues are spaced by the interval of its provider, so from the first to the
  last of \<open>N\<close> of them at least \<open>N - 1\<close> intervals pass. A call of
  \<^verbatim>\<open>PorkbunAPI.check_domain\<close> issues its request no earlier than the interval after the
  time the client stored at its previous call, and stores the time of the request; so the
  requests of a batch through the client are spaced as well.
\<close>

theorem provider_requests_spaced:
  assumes "patient e"
    and "lane = issue_times (drop (length (requests w))
                  (requests (snd (process_api_batch py e w domains provider ac))))"
    and "PorkbunAPI_check_domain py e w self domain = (r, self', w')"
    and "batch = issue_times (drop (length (requests w))
                   (requests (snd (snd (PorkbunAPI_batch_check py e w self domains max_errors)))))"
  shows "spaced (rate_limit_of provider) lane
    \<and> (lane \<noteq> [] \<longrightarrow> hd lane + real (length lane - 1) * rate_limit_of provider \<le> last lane)
    \<and> requests w'
        = requests w @ [(lit ''porkbun'', complete_domain domain, last_request_time self')]
    \<and> last_request_time self + RATE_LIMIT_PORKBUN \<le> last_request_time self'
    \<and> spaced RATE_LIMIT_PORKBUN batch
    \<and> (batch \<noteq> [] \<longrightarrow> hd batch + real (length batch - 1) * RATE_LIMIT_PORKBUN \<le> last batch)"
proof -
  have lane: "spaced (rate_limit_of provider) lane"
    unfolding assms(2) using lane_spaced[OF assms(1)] .
  obtain res self2 w2 where
    run: "batch_loop (PorkbunAPI_check_domain py e) True e max_errors domains [] 0 self w
            = (res, self2, w2)"
    by (metis prod.exhaust)
  then have "snd (snd (PorkbunAPI_batch_check py e w self domains max_errors)) = w2"
    by (simp add: PorkbunAPI_batch_check_def)
  then have batch: "spaced RATE_LIMIT_PORKBUN batch"
    unfolding assms(4) using batch_spaced[OF stamps_PorkbunAPI[OF assms(1)] run] by simp
  from lane batch spaced_span[OF lane] spaced_span[OF batch]
    PorkbunAPI_check_domain_waits[OF assms(1,3)]
  show ?thesis by blast
qed

lemma patient_constant_env: "patient (constant_env h)"
  by (simp add: patient_def constant_env_def)

theorem provider_requests_spaced_witness:
  "patient (constant_env http_500)
   \<and> spaced (rate_limit_of (lit ''porkbun''))
       (issue_times (drop (length (requests sample_world))
          (requests (snd (process_api_batch sample_python (constant_env http_500) sample_world
                            six_domains (lit ''porkbun'') porkbun_only)))))
   \<and> last_request_time sample_client + RATE_LIMIT_PORKBUN
       \<le> last_request_time
            (fst (snd (PorkbunAPI_check_domain sample_python (constant_env http_500)
                         sample_world sample_client (lit ''aa.com''))))"
proof -
  let ?e = "constant_env http_500"
  let ?call = "PorkbunAPI_check_domain sample_python ?e sample_world sample_client
                 (lit ''aa.com'')"
  let ?lane = "issue_times (drop (length (requests sample_world))
                 (requests (snd (process_api_batch sample_python ?e sample_world six_domains
                                   (lit ''porkbun'') porkbun_only))))"
  let ?batch = "issue_times (drop (length (requests sample_world))
                  (requests (snd (snd (PorkbunAPI_batch_check sample_python ?e sample_world
                                         sample_client six_domains 5)))))"
  have call: "?call = (fst ?call, fst (snd ?call), snd (snd ?call))"
    by simp
  have "spaced (rate_limit_of (lit ''porkbun'')) ?lane
     \<and> last_request_time sample_client + RATE_LIMIT_PORKBUN
         \<le> last_request_time (fst (snd ?call))"
    using provider_requests_spaced
        [of ?e ?lane sample_world sample_python six_domains "lit ''porkbun''" porkbun_only
            sample_client "lit ''aa.com''" "fst ?call" "fst (snd ?call)" "snd (snd ?call)"
            ?batch 5,
         OF patient_constant_env refl call refl]
    by blast
  then show ?thesis
    using patient_constant_env[of http_500] by blast
qed

end
